theory Spec2Isabelle
  imports Main "HOL-Library.Word"
begin

unbundle bit_operations_syntax

section \<open>Data model of the ACL data channel\<close>

text \<open>
  Shallow embedding of \<^verbatim>\<open>pw_bluetooth_proxy/acl_data_channel.cc\<close>.
  The mutex is not modelled: every operation below is one critical section of the
  source, run to completion. Calls into the external collaborators (HCI transport,
  L2CAP channel manager) are recorded as a list of effects, in call order.
\<close>

type_synonym uint8_t = "8 word"
type_synonym uint16_t = "16 word"

datatype AclTransportType = kBrEdr | kLe

datatype Direction = kFromController | kFromHost

text \<open>\<^verbatim>\<open>pw::Status\<close> codes returned by the functions of this file.\<close>

datatype Status =
  OkStatus | InvalidArgument | NotFound | ResourceExhausted
  | AlreadyExists | FailedPrecondition | OutOfRange

text \<open>A failed \<^verbatim>\<open>PW_CHECK\<close> (or an enabled, failed \<^verbatim>\<open>PW_DCHECK\<close>) aborts the program.\<close>

datatype abort = CheckFailed

text \<open>Calls made on the HCI transport and on the L2CAP channel manager.\<close>

datatype 'p effect =
  SendToHost 'p
  | SendToController 'p
  | DrainChannelQueues
  | HandleDisconnectionComplete uint16_t

subsection \<open>Credits\<close>

record Credits =
  to_reserve :: uint16_t
  proxy_max :: uint16_t
  proxy_pending :: uint16_t

definition Credits_Reset :: "Credits \<Rightarrow> Credits" where
  "Credits_Reset c = c\<lparr>proxy_max := 0, proxy_pending := 0\<rparr>"

text \<open>
  Modelled from the spec: \<^verbatim>\<open>Credits::Initialized\<close>, \<^verbatim>\<open>Credits::Remaining\<close>,
  \<^verbatim>\<open>Credits::Available\<close> and \<^verbatim>\<open>Credits::HasSendCapability\<close> are declared in the
  header \<^verbatim>\<open>internal/acl_data_channel.h\<close>, which is not among the sources. The spec
  gives \<open>Initialized() \<Leftrightarrow> proxy_max > 0\<close>, \<open>Available() = proxy_max - proxy_pending\<close>
  and \<open>HasSendCapability() \<Leftrightarrow> proxy_max > 0\<close>; the difference is a 16-bit value.
\<close>

definition Initialized :: "Credits \<Rightarrow> bool" where
  "Initialized c = (proxy_max c > 0)"

definition Remaining :: "Credits \<Rightarrow> uint16_t" where
  "Remaining c = proxy_max c - proxy_pending c"

definition Available :: "Credits \<Rightarrow> uint16_t" where
  "Available c = Remaining c"

definition HasSendCapability :: "Credits \<Rightarrow> bool" where
  "HasSendCapability c = (proxy_max c > 0)"

definition Reserve :: "uint16_t \<Rightarrow> Credits \<Rightarrow> abort + (uint16_t \<times> Credits)" where
  "Reserve controller_max c =
     (if Initialized c then Inl CheckFailed
      else
        let c' = c\<lparr>proxy_max := min controller_max (to_reserve c)\<rparr>;
            host_max = controller_max - proxy_max c'
        in Inr (host_max, c'))"

definition MarkPending :: "uint16_t \<Rightarrow> Credits \<Rightarrow> Status \<times> Credits" where
  "MarkPending num_credits c =
     (if num_credits > Available c then (ResourceExhausted, c)
      else (OkStatus, c\<lparr>proxy_pending := proxy_pending c + num_credits\<rparr>))"

definition MarkCompleted :: "uint16_t \<Rightarrow> Credits \<Rightarrow> Credits" where
  "MarkCompleted num_credits c =
     (if num_credits > proxy_pending c then c\<lparr>proxy_pending := 0\<rparr>
      else c\<lparr>proxy_pending := proxy_pending c - num_credits\<rparr>)"

subsection \<open>Recombination buffer\<close>

text \<open>
  Modelled from the spec: \<^verbatim>\<open>MultiBufWriter\<close> and the multibuf allocator are not among
  the sources. Following section 4.B of the spec, a writer has a target size and the
  bytes written so far; \<open>Create\<close> fails when the allocator cannot provide a contiguous
  region of the requested size, \<open>Write\<close> fails with \<open>OutOfRange\<close> when the data would
  exceed the target, \<open>IsComplete\<close> holds when the written bytes reach the target, and
  \<open>TakeMultiBuf\<close> yields the bytes. An allocator is modelled by the set of sizes it
  can currently provide.
\<close>

record MultiBufWriter =
  target_size :: nat
  storage :: "uint8_t list"

type_synonym MultiBufAllocator = "nat \<Rightarrow> bool"

definition MultiBufWriter_Create :: "MultiBufAllocator \<Rightarrow> nat \<Rightarrow> Status + MultiBufWriter" where
  "MultiBufWriter_Create allocator size' =
     (if allocator size' then Inr \<lparr>target_size = size', storage = []\<rparr>
      else Inl ResourceExhausted)"

definition MultiBufWriter_Write :: "uint8_t list \<Rightarrow> MultiBufWriter \<Rightarrow> Status + MultiBufWriter" where
  "MultiBufWriter_Write data w =
     (if length (storage w) + length data > target_size w then Inl OutOfRange
      else Inr (w\<lparr>storage := storage w @ data\<rparr>))"

definition IsComplete :: "MultiBufWriter \<Rightarrow> bool" where
  "IsComplete w = (length (storage w) = target_size w)"

definition TakeMultiBuf :: "MultiBufWriter \<Rightarrow> uint8_t list" where
  "TakeMultiBuf w = storage w"

subsection \<open>Connections and the channel\<close>

text \<open>
  The two signaling channels of a connection belong to the L2CAP layer and are left
  out. The field \<^verbatim>\<open>recombination_buffers_\<close> is the two-element array indexed by
  direction: a pair, read with \<open>slot\<close> and assigned with \<open>slot_update\<close>.
\<close>

fun slot :: "Direction \<Rightarrow> 'a \<times> 'a \<Rightarrow> 'a" where
  "slot kFromController b = fst b"
| "slot kFromHost b = snd b"

fun slot_update :: "Direction \<Rightarrow> 'a \<Rightarrow> 'a \<times> 'a \<Rightarrow> 'a \<times> 'a" where
  "slot_update kFromController v b = (v, snd b)"
| "slot_update kFromHost v b = (fst b, v)"

record AclConnection =
  transport :: AclTransportType
  connection_handle :: uint16_t
  num_pending_packets :: uint16_t
  recombination_buffers :: "MultiBufWriter option \<times> MultiBufWriter option"

definition AclConnection_ctor :: "AclTransportType \<Rightarrow> uint16_t \<Rightarrow> uint16_t \<Rightarrow> AclConnection" where
  "AclConnection_ctor t h n =
     \<lparr>transport = t, connection_handle = h, num_pending_packets = n,
      recombination_buffers = (None, None)\<rparr>"

record AclDataChannel =
  le_credits :: Credits
  br_edr_credits :: Credits
  acl_connections :: "AclConnection list"

definition Reset :: "AclDataChannel \<Rightarrow> AclDataChannel" where
  "Reset s = s\<lparr>le_credits := Credits_Reset (le_credits s),
               br_edr_credits := Credits_Reset (br_edr_credits s),
               acl_connections := []\<rparr>"

fun LookupCredits :: "AclTransportType \<Rightarrow> AclDataChannel \<Rightarrow> Credits" where
  "LookupCredits kBrEdr s = br_edr_credits s"
| "LookupCredits kLe s = le_credits s"

text \<open>Assignment through the reference returned by \<^verbatim>\<open>LookupCredits\<close>.\<close>

fun LookupCredits_update ::
  "AclTransportType \<Rightarrow> (Credits \<Rightarrow> Credits) \<Rightarrow> AclDataChannel \<Rightarrow> AclDataChannel" where
  "LookupCredits_update kBrEdr f s = s\<lparr>br_edr_credits := f (br_edr_credits s)\<rparr>"
| "LookupCredits_update kLe f s = s\<lparr>le_credits := f (le_credits s)\<rparr>"

text \<open>
  \<^verbatim>\<open>containers::FindIf\<close>: the position of the first element satisfying the predicate.
  \<^verbatim>\<open>FindAclConnection\<close> returns a pointer into \<open>acl_connections\<close>; the model returns
  the index, and \<open>None\<close> for \<^verbatim>\<open>nullptr\<close>.
\<close>

fun FindIf :: "('a \<Rightarrow> bool) \<Rightarrow> 'a list \<Rightarrow> nat option" where
  "FindIf p [] = None"
| "FindIf p (x # xs) =
     (if p x then Some 0 else (case FindIf p xs of None \<Rightarrow> None | Some i \<Rightarrow> Some (Suc i)))"

definition FindAclConnection :: "uint16_t \<Rightarrow> AclDataChannel \<Rightarrow> nat option" where
  "FindAclConnection h s =
     FindIf (\<lambda>connection. connection_handle connection = h)
            (acl_connections s)"

text \<open>\<^verbatim>\<open>acl_connections.erase(connection_ptr)\<close>.\<close>

definition erase :: "nat \<Rightarrow> 'a list \<Rightarrow> 'a list" where
  "erase i xs = take i xs @ drop (Suc i) xs"

subsection \<open>Read Buffer Size Command Complete\<close>

text \<open>
  The event view: only \<open>total_num_acl_data_packets\<close> is read and written; the
  record scheme carries every other field of the event unchanged.
\<close>

record ReadBufferSizeCommandCompleteEvent =
  total_num_acl_data_packets :: uint16_t

definition ProcessReadBufferSizeCommandCompleteEvent ::
  "'a ReadBufferSizeCommandCompleteEvent_scheme \<Rightarrow> AclDataChannel \<Rightarrow>
   abort + ('a ReadBufferSizeCommandCompleteEvent_scheme \<times> AclDataChannel \<times> unit effect list)" where
  "ProcessReadBufferSizeCommandCompleteEvent read_buffer_event s =
     (let controller_max = total_num_acl_data_packets read_buffer_event in
      case Reserve controller_max (br_edr_credits s) of
        Inl a \<Rightarrow> Inl a
      | Inr (host_max, c') \<Rightarrow>
          Inr (read_buffer_event\<lparr>total_num_acl_data_packets := host_max\<rparr>,
               s\<lparr>br_edr_credits := c'\<rparr>,
               [DrainChannelQueues]))"

subsection \<open>Send credits\<close>

text \<open>
  A \<^verbatim>\<open>SendCredit\<close> holds its transport and the function object \<open>relinquish_fn_\<close>.
  The only function ever stored there is the lambda built by \<^verbatim>\<open>ReserveSendCredit\<close>
  (the constructor is private), so the field is modelled by whether it is set; the
  lambda's body is written out in the destructor.
\<close>

record SendCredit =
  credit_transport :: AclTransportType
  relinquish_fn :: bool

text \<open>Move construction: returns the new credit and the moved-from source.\<close>

definition SendCredit_move :: "SendCredit \<Rightarrow> SendCredit \<times> SendCredit" where
  "SendCredit_move other =
     (\<lparr>credit_transport = credit_transport other, relinquish_fn = relinquish_fn other\<rparr>,
      other\<lparr>relinquish_fn := False\<rparr>)"

definition SendCredit_dtor :: "SendCredit \<Rightarrow> AclDataChannel \<Rightarrow> AclDataChannel" where
  "SendCredit_dtor credit s =
     (if relinquish_fn credit
      then LookupCredits_update (credit_transport credit) (MarkCompleted 1) s
      else s)"

definition MarkUsed :: "SendCredit \<Rightarrow> abort + SendCredit" where
  "MarkUsed credit =
     (if relinquish_fn credit then Inr (credit\<lparr>relinquish_fn := False\<rparr>)
      else Inl CheckFailed)"

definition ReserveSendCredit ::
  "AclTransportType \<Rightarrow> AclDataChannel \<Rightarrow> SendCredit option \<times> AclDataChannel" where
  "ReserveSendCredit t s =
     (case MarkPending 1 (LookupCredits t s) of
        (status', c') \<Rightarrow>
          if status' \<noteq> OkStatus then (None, s)
          else (Some \<lparr>credit_transport = t, relinquish_fn = True\<rparr>,
                LookupCredits_update t (\<lambda>_. c') s))"

subsection \<open>ACL frames on the wire\<close>

text \<open>
  The packet boundary flag is a two-bit field. The source names three of its values;
  the fourth, \<open>COMPLETE_FLUSHABLE\<close> here, is what reaches the \<^verbatim>\<open>default\<close> branch of
  the switch in \<^verbatim>\<open>HandleAclData\<close>.
\<close>

datatype AclDataPacketBoundaryFlag =
  FIRST_NON_FLUSHABLE | CONTINUING_FRAGMENT | FIRST_FLUSHABLE | COMPLETE_FLUSHABLE

record AclDataFrameHeader =
  handle :: uint16_t
  packet_boundary_flag :: AclDataPacketBoundaryFlag
  data_total_length :: uint16_t

text \<open>A 16-bit little-endian field.\<close>

definition Read16 :: "uint8_t \<Rightarrow> uint8_t \<Rightarrow> uint16_t" where
  "Read16 lo hi = (ucast lo) OR (push_bit 8 (ucast hi))"

definition boundary_flag_of :: "uint16_t \<Rightarrow> AclDataPacketBoundaryFlag" where
  "boundary_flag_of w =
     (if w = 0 then FIRST_NON_FLUSHABLE
      else if w = 1 then CONTINUING_FRAGMENT
      else if w = 2 then FIRST_FLUSHABLE
      else COMPLETE_FLUSHABLE)"

text \<open>
  Modelled from the spec: the generated view \<^verbatim>\<open>emboss::AclDataFrameHeaderView\<close> is
  not among the sources. The wire contract of the spec gives a 12-bit connection
  handle, a 2-bit packet boundary flag and a 16-bit \<open>data_total_length\<close>; the header
  is four bytes, and the view cannot be made over a shorter span.
\<close>

definition MakeAclDataFrameHeaderView :: "uint8_t list \<Rightarrow> AclDataFrameHeader option" where
  "MakeAclDataFrameHeaderView span =
     (case span of
        b0 # b1 # b2 # b3 # _ \<Rightarrow>
          Some \<lparr>handle = Read16 b0 b1 AND 0x0FFF,
                packet_boundary_flag = boundary_flag_of (drop_bit 12 (Read16 b0 b1) AND 3),
                data_total_length = Read16 b2 b3\<rparr>
      | _ \<Rightarrow> None)"

subsection \<open>The send path\<close>

definition SendAcl ::
  "uint8_t list \<Rightarrow> SendCredit \<Rightarrow> AclDataChannel \<Rightarrow>
   abort + (Status \<times> SendCredit \<times> AclDataChannel \<times> (uint8_t list) effect list)" where
  "SendAcl h4_packet credit s =
     (case MakeAclDataFrameHeaderView h4_packet of
        None \<Rightarrow> Inr (InvalidArgument, credit, s, [])
      | Some acl_view \<Rightarrow>
          (case FindAclConnection (handle acl_view) s of
             None \<Rightarrow> Inr (NotFound, credit, s, [])
           | Some i \<Rightarrow>
               let connection = acl_connections s ! i in
               if transport connection \<noteq> credit_transport credit
               then Inr (InvalidArgument, credit, s, [])
               else
                 (case MarkUsed credit of
                    Inl a \<Rightarrow> Inl a
                  | Inr credit' \<Rightarrow>
                      Inr (OkStatus, credit',
                           s\<lparr>acl_connections := (acl_connections s)
                                [i := connection\<lparr>num_pending_packets :=
                                        num_pending_packets connection + 1\<rparr>]\<rparr>,
                           [SendToController h4_packet]))))"


subsection \<open>Number Of Completed Packets\<close>

text \<open>
  Modelled from the spec: the generated view
  \<^verbatim>\<open>emboss::NumberOfCompletedPacketsEventWriter\<close> is not among the sources. The
  event carries \<open>num_handles\<close> and an array of (connection handle, number of
  completed packets) pairs, 16 bits each; the packet is modelled by these fields, and
  the view cannot be made when the buffer holds fewer pairs than \<open>num_handles\<close>.
\<close>

record NumberOfCompletedPacketsEventData =
  nocp_connection_handle :: uint16_t
  num_completed_packets :: uint16_t

record NumberOfCompletedPacketsEvent =
  num_handles :: uint8_t
  nocp_data :: "NumberOfCompletedPacketsEventData list"

definition MakeNumberOfCompletedPacketsEventWriter ::
  "NumberOfCompletedPacketsEvent \<Rightarrow> NumberOfCompletedPacketsEvent option" where
  "MakeNumberOfCompletedPacketsEventWriter h4_packet =
     (if unat (num_handles h4_packet) \<le> length (nocp_data h4_packet)
      then Some h4_packet else None)"

text \<open>
  The body of the loop of \<^verbatim>\<open>HandleNumberOfCompletedPacketsEvent\<close> for one pair: it
  returns the pair as rewritten, the channel, and what the iteration contributes to
  \<open>should_send_to_host\<close> and \<open>did_reclaim_credits\<close>.
\<close>

definition nocp_entry ::
  "NumberOfCompletedPacketsEventData \<Rightarrow> AclDataChannel \<Rightarrow>
   NumberOfCompletedPacketsEventData \<times> AclDataChannel \<times> bool \<times> bool" where
  "nocp_entry d s =
     (if num_completed_packets d = 0 then (d, s, False, False)
      else
        (case FindAclConnection (nocp_connection_handle d) s of
           None \<Rightarrow> (d, s, True, False)
         | Some k \<Rightarrow>
             let connection = acl_connections s ! k;
                 pending = num_pending_packets connection;
                 num_reclaimed = min (num_completed_packets d) pending;
                 s1 = LookupCredits_update (transport connection) (MarkCompleted num_reclaimed) s;
                 s2 = s1\<lparr>acl_connections := (acl_connections s1)
                          [k := connection\<lparr>num_pending_packets := pending - num_reclaimed\<rparr>]\<rparr>;
                 credits_remaining = num_completed_packets d - num_reclaimed
             in (d\<lparr>num_completed_packets := credits_remaining\<rparr>, s2,
                 credits_remaining > 0, num_reclaimed > 0)))"

text \<open>
  The loop over \<open>i < num_handles\<close>. The counter is a \<^verbatim>\<open>uint8_t\<close> that stays below
  \<open>num_handles \<le> 255\<close>, so it never wraps and is a natural number here.
\<close>

function nocp_loop ::
  "nat \<Rightarrow> NumberOfCompletedPacketsEvent \<Rightarrow> AclDataChannel \<Rightarrow> bool \<Rightarrow> bool \<Rightarrow>
   NumberOfCompletedPacketsEvent \<times> AclDataChannel \<times> bool \<times> bool" where
  "nocp_loop i nocp_event s should_send_to_host did_reclaim_credits =
     (if i < unat (num_handles nocp_event) then
        (case nocp_entry (nocp_data nocp_event ! i) s of
           (d', s', send, reclaimed) \<Rightarrow>
             nocp_loop (Suc i)
               (nocp_event\<lparr>nocp_data := (nocp_data nocp_event)[i := d']\<rparr>) s'
               (should_send_to_host \<or> send) (did_reclaim_credits \<or> reclaimed))
      else (nocp_event, s, should_send_to_host, did_reclaim_credits))"
  by pat_completeness auto
termination
  by (relation "measure (\<lambda>(i, ev, s, a, b). unat (num_handles ev) - i)") auto

declare nocp_loop.simps [simp del]

definition HandleNumberOfCompletedPacketsEvent ::
  "NumberOfCompletedPacketsEvent \<Rightarrow> AclDataChannel \<Rightarrow>
   AclDataChannel \<times> NumberOfCompletedPacketsEvent effect list" where
  "HandleNumberOfCompletedPacketsEvent h4_packet s =
     (case MakeNumberOfCompletedPacketsEventWriter h4_packet of
        None \<Rightarrow> (s, [SendToHost h4_packet])
      | Some nocp_event \<Rightarrow>
          (case nocp_loop 0 nocp_event s False False of
             (ev', s', should_send_to_host, did_reclaim_credits) \<Rightarrow>
               (s', (if did_reclaim_credits then [DrainChannelQueues] else [])
                    @ (if should_send_to_host then [SendToHost ev'] else []))))"

subsection \<open>Disconnection Complete\<close>

text \<open>
  Modelled from the spec: the generated view
  \<^verbatim>\<open>emboss::DisconnectionCompleteEventView\<close> is not among the sources. The event is
  modelled by the fields the code reads; \<open>None\<close> stands for a span too small for the
  view. \<open>SUCCESS\<close> is the HCI status code zero.
\<close>

type_synonym StatusCode = uint8_t

definition SUCCESS :: StatusCode where
  "SUCCESS = 0"

record DisconnectionCompleteEvent =
  status :: StatusCode
  dc_connection_handle :: uint16_t
  reason :: uint8_t

definition ProcessDisconnectionCompleteEvent ::
  "DisconnectionCompleteEvent option \<Rightarrow> AclDataChannel \<Rightarrow>
   AclDataChannel \<times> unit effect list" where
  "ProcessDisconnectionCompleteEvent dc_event s =
     (case dc_event of
        None \<Rightarrow> (s, [])
      | Some ev \<Rightarrow>
          let conn_handle = dc_connection_handle ev in
          (case FindAclConnection conn_handle s of
             None \<Rightarrow> (s, [])
           | Some i \<Rightarrow>
               let connection = acl_connections s ! i in
               if status ev = SUCCESS then
                 let s1 = (if num_pending_packets connection > 0
                           then LookupCredits_update (transport connection)
                                  (MarkCompleted (num_pending_packets connection)) s
                           else s)
                 in (s1\<lparr>acl_connections := erase i (acl_connections s1)\<rparr>,
                     [HandleDisconnectionComplete conn_handle])
               else (s, [])))"

subsection \<open>L2CAP collaborators\<close>

record BasicL2capHeader =
  pdu_length :: uint16_t
  channel_id :: uint16_t

text \<open>
  Modelled from the spec: the generated view \<^verbatim>\<open>emboss::BasicL2capHeaderView\<close> is not
  among the sources. The wire contract of the spec gives \<open>pdu_length\<close> (16 bits,
  little-endian) followed by \<open>channel_id\<close> (16 bits, little-endian) in a header of
  four bytes; the view is not \<open>Ok\<close> over fewer bytes.
\<close>

definition MakeBasicL2capHeaderView :: "uint8_t list \<Rightarrow> BasicL2capHeader option" where
  "MakeBasicL2capHeaderView data =
     (case data of
        b0 # b1 # b2 # b3 # _ \<Rightarrow> Some \<lparr>pdu_length = Read16 b0 b1, channel_id = Read16 b2 b3\<rparr>
      | _ \<Rightarrow> None)"

definition IntrinsicSizeInBytes :: uint16_t where
  "IntrinsicSizeInBytes = 4"

text \<open>
  Modelled from the spec: \<^verbatim>\<open>L2capChannel\<close> and \<^verbatim>\<open>L2capChannelManager\<close> are external;
  only the interface of section 6 of the spec is used. A channel offers its receive
  allocator (absent for \<^verbatim>\<open>nullptr\<close>) and two handlers that answer whether the PDU was
  consumed; the manager finds a channel by connection handle and channel id. What a
  handler does inside the L2CAP layer is outside this model.
\<close>

record L2capChannel =
  rx_multibuf_allocator :: "MultiBufAllocator option"
  HandlePduFromController :: "uint8_t list \<Rightarrow> bool"
  HandlePduFromHost :: "uint8_t list \<Rightarrow> bool"

record L2capChannelManager =
  FindChannelByLocalCid :: "uint16_t \<Rightarrow> uint16_t \<Rightarrow> L2capChannel option"
  FindChannelByRemoteCid :: "uint16_t \<Rightarrow> uint16_t \<Rightarrow> L2capChannel option"

subsection \<open>Recombination on a connection\<close>

text \<open>
  Modelled from the spec: \<^verbatim>\<open>RecombinationActive\<close> and \<^verbatim>\<open>get_recombination_buffer\<close>
  are defined in the absent header; the slot of a direction is active when it holds
  a buffer.
\<close>

definition RecombinationActive :: "AclConnection \<Rightarrow> Direction \<Rightarrow> bool" where
  "RecombinationActive c direction = (slot direction (recombination_buffers c) \<noteq> None)"

definition get_recombination_buffer :: "AclConnection \<Rightarrow> Direction \<Rightarrow> MultiBufWriter option" where
  "get_recombination_buffer c direction = slot direction (recombination_buffers c)"

definition EndRecombination :: "Direction \<Rightarrow> AclConnection \<Rightarrow> AclConnection" where
  "EndRecombination direction c =
     c\<lparr>recombination_buffers := slot_update direction None (recombination_buffers c)\<rparr>"

definition StartRecombination ::
  "Direction \<Rightarrow> MultiBufAllocator \<Rightarrow> nat \<Rightarrow> AclConnection \<Rightarrow> Status \<times> AclConnection" where
  "StartRecombination direction multibuf_allocator size' c =
     (if RecombinationActive c direction then (FailedPrecondition, c)
      else
        (case MultiBufWriter_Create multibuf_allocator size' of
           Inl st \<Rightarrow> (st, c)
         | Inr recomb \<Rightarrow>
             (OkStatus,
              c\<lparr>recombination_buffers :=
                  slot_update direction (Some recomb) (recombination_buffers c)\<rparr>)))"

text \<open>
  \<^verbatim>\<open>RecombineFragment\<close> returns the recombined bytes, or the empty buffer while more
  fragments are awaited, or the failing status.
\<close>

definition RecombineFragment ::
  "Direction \<Rightarrow> uint8_t list \<Rightarrow> AclConnection \<Rightarrow> (Status + uint8_t list) \<times> AclConnection" where
  "RecombineFragment direction data c =
     (case get_recombination_buffer c direction of
        None \<Rightarrow> (Inl FailedPrecondition, c)
      | Some recomb \<Rightarrow>
          (case MultiBufWriter_Write data recomb of
             Inl st \<Rightarrow> (Inl st, c)
           | Inr recomb' \<Rightarrow>
               if \<not> IsComplete recomb'
               then (Inr [],
                     c\<lparr>recombination_buffers :=
                         slot_update direction (Some recomb') (recombination_buffers c)\<rparr>)
               else (Inr (TakeMultiBuf recomb'), EndRecombination direction c)))"

subsection \<open>Classification of ACL frames\<close>

record AclDataFrame =
  header :: AclDataFrameHeader
  payload :: "uint8_t list"

definition kHandled :: bool where
  "kHandled = True"

definition kUnhandled :: bool where
  "kUnhandled = False"

definition find_l2cap_channel ::
  "L2capChannelManager \<Rightarrow> Direction \<Rightarrow> uint16_t \<Rightarrow> uint16_t \<Rightarrow> L2capChannel option" where
  "find_l2cap_channel l2cap_channel_manager direction h cid =
     (case direction of
        kFromController \<Rightarrow> FindChannelByLocalCid l2cap_channel_manager h cid
      | kFromHost \<Rightarrow> FindChannelByRemoteCid l2cap_channel_manager h cid)"

text \<open>
  The \<^verbatim>\<open>FIRST_NON_FLUSHABLE\<close>/\<^verbatim>\<open>FIRST_FLUSHABLE\<close> case of the switch. The result is the
  connection as left by the case, with either the value returned at once (\<open>Inl\<close>) or
  \<open>is_fragment\<close> when control reaches the end of the switch (\<open>Inr\<close>).
\<close>

definition first_fragment_case ::
  "L2capChannelManager \<Rightarrow> Direction \<Rightarrow> AclDataFrame \<Rightarrow> AclConnection \<Rightarrow>
   AclConnection \<times> (bool + bool)" where
  "first_fragment_case mgr direction acl connection =
     (let connection1 = (if RecombinationActive connection direction
                         then EndRecombination direction connection else connection) in
      case MakeBasicL2capHeaderView (payload acl) of
        None \<Rightarrow> (connection1, Inl kUnhandled)
      | Some l2cap_header \<Rightarrow>
          let l2cap_channel_id = channel_id l2cap_header in
          (case find_l2cap_channel mgr direction (handle (header acl)) l2cap_channel_id of
             None \<Rightarrow> (connection1, Inl kUnhandled)
           | Some channel \<Rightarrow>
               let acl_payload_size = data_total_length (header acl);
                   l2cap_frame_length = IntrinsicSizeInBytes + pdu_length l2cap_header
               in
               if l2cap_frame_length < acl_payload_size then (connection1, Inl kHandled)
               else if l2cap_frame_length > acl_payload_size then
                 (case rx_multibuf_allocator channel of
                    None \<Rightarrow> (connection1, Inl kUnhandled)
                  | Some multibuf_allocator \<Rightarrow>
                      (case StartRecombination direction multibuf_allocator
                              (unat l2cap_frame_length) connection1 of
                         (st, connection2) \<Rightarrow>
                           if st \<noteq> OkStatus then (connection2, Inl kUnhandled)
                           else (connection2, Inr True)))
               else (connection1, Inr False)))"

text \<open>The switch on the packet boundary flag.\<close>

definition boundary_switch ::
  "L2capChannelManager \<Rightarrow> Direction \<Rightarrow> AclDataFrame \<Rightarrow> AclConnection \<Rightarrow>
   AclConnection \<times> (bool + bool)" where
  "boundary_switch mgr direction acl connection =
     (case packet_boundary_flag (header acl) of
        CONTINUING_FRAGMENT \<Rightarrow>
          if \<not> RecombinationActive connection direction then (connection, Inl kUnhandled)
          else (connection, Inr True)
      | FIRST_NON_FLUSHABLE \<Rightarrow> first_fragment_case mgr direction acl connection
      | FIRST_FLUSHABLE \<Rightarrow> first_fragment_case mgr direction acl connection
      | COMPLETE_FLUSHABLE \<Rightarrow> (connection, Inl kUnhandled))"

text \<open>
  The rest of the locked block: the PDU is the payload of a non-fragment, or what
  \<^verbatim>\<open>RecombineFragment\<close> yields. \<open>debug_checks\<close> says whether \<^verbatim>\<open>PW_DCHECK\<close> is compiled
  in. The result is the connection with either the value returned at once or the
  bytes of \<open>l2cap_pdu\<close>. A completed buffer is contiguous by construction, so the
  \<^verbatim>\<open>PW_CHECK\<close> on its span has no failing branch.
\<close>

definition recombine_stage ::
  "bool \<Rightarrow> Direction \<Rightarrow> AclDataFrame \<Rightarrow> bool \<Rightarrow> AclConnection \<Rightarrow>
   abort + (AclConnection \<times> (bool + uint8_t list))" where
  "recombine_stage debug_checks direction acl is_fragment connection =
     (if \<not> is_fragment then Inr (connection, Inr (payload acl))
      else
        (case RecombineFragment direction (payload acl) connection of
           (Inl st, connection') \<Rightarrow>
             if debug_checks \<and> packet_boundary_flag (header acl) \<noteq> CONTINUING_FRAGMENT
             then Inl CheckFailed
             else Inr (EndRecombination direction connection', Inl kHandled)
         | (Inr recomb_result, connection') \<Rightarrow>
             if recomb_result = [] then Inr (connection', Inl kHandled)
             else Inr (connection', Inr recomb_result)))"

text \<open>The part of \<^verbatim>\<open>HandleAclData\<close> after the lock is released.\<close>

definition dispatch_pdu ::
  "bool \<Rightarrow> L2capChannelManager \<Rightarrow> Direction \<Rightarrow> uint16_t \<Rightarrow> bool \<Rightarrow> uint8_t list \<Rightarrow>
   abort + bool" where
  "dispatch_pdu debug_checks mgr direction h is_fragment l2cap_pdu =
     (case MakeBasicL2capHeaderView l2cap_pdu of
        None \<Rightarrow> Inl CheckFailed
      | Some l2cap_header \<Rightarrow>
          (case find_l2cap_channel mgr direction h (channel_id l2cap_header) of
             None \<Rightarrow>
               if debug_checks \<and> is_fragment then Inl CheckFailed else Inr kUnhandled
           | Some channel \<Rightarrow>
               let result = (if direction = kFromController
                             then HandlePduFromController channel l2cap_pdu
                             else HandlePduFromHost channel l2cap_pdu)
               in if is_fragment \<and> \<not> result then Inr kHandled else Inr result))"

text \<open>Writing through the pointer returned by \<^verbatim>\<open>FindAclConnection\<close>.\<close>

definition store_connection :: "nat \<Rightarrow> AclConnection \<Rightarrow> AclDataChannel \<Rightarrow> AclDataChannel" where
  "store_connection i c s = s\<lparr>acl_connections := (acl_connections s)[i := c]\<rparr>"

definition HandleAclData ::
  "bool \<Rightarrow> L2capChannelManager \<Rightarrow> Direction \<Rightarrow> AclDataFrame \<Rightarrow> AclDataChannel \<Rightarrow>
   abort + (bool \<times> AclDataChannel)" where
  "HandleAclData debug_checks mgr direction acl s =
     (let h = handle (header acl) in
      case FindAclConnection h s of
        None \<Rightarrow> Inr (kUnhandled, s)
      | Some i \<Rightarrow>
          (case boundary_switch mgr direction acl (acl_connections s ! i) of
             (connection1, Inl r) \<Rightarrow> Inr (r, store_connection i connection1 s)
           | (connection1, Inr is_fragment) \<Rightarrow>
               (case recombine_stage debug_checks direction acl is_fragment connection1 of
                  Inl a \<Rightarrow> Inl a
                | Inr (connection2, Inl r) \<Rightarrow> Inr (r, store_connection i connection2 s)
                | Inr (connection2, Inr l2cap_pdu) \<Rightarrow>
                    (case dispatch_pdu debug_checks mgr direction h is_fragment l2cap_pdu of
                       Inl a \<Rightarrow> Inl a
                     | Inr r \<Rightarrow> Inr (r, store_connection i connection2 s)))))"

subsection \<open>Clients holding send credits\<close>

text \<open>
  Send credits live in the callers of the channel. To speak about sequences of
  operations, the channel is paired with the credits its clients hold. A credit
  handed to \<^verbatim>\<open>SendAcl\<close> stays with the caller (it is passed by reference) and is
  destroyed by a later drop.
\<close>

record System =
  channel :: AclDataChannel
  held :: "SendCredit list"






definition live_of :: "AclTransportType \<Rightarrow> SendCredit \<Rightarrow> nat" where
  "live_of t credit = (if relinquish_fn credit \<and> credit_transport credit = t then 1 else 0)"

definition live_credits :: "AclTransportType \<Rightarrow> SendCredit list \<Rightarrow> nat" where
  "live_credits t credits = sum_list (map (live_of t) credits)"

definition pool_pending :: "AclTransportType \<Rightarrow> AclDataChannel \<Rightarrow> nat" where
  "pool_pending t s = unat (proxy_pending (LookupCredits t s))"



text \<open>
  Reserving \<open>n\<close> times and keeping every handle obtained; destroying a list of
  handles.
\<close>

fun reserve_credits ::
  "AclTransportType \<Rightarrow> nat \<Rightarrow> AclDataChannel \<Rightarrow> SendCredit list \<times> AclDataChannel" where
  "reserve_credits t 0 s = ([], s)"
| "reserve_credits t (Suc n) s =
     (case ReserveSendCredit t s of
        (None, s') \<Rightarrow> reserve_credits t n s'
      | (Some credit, s') \<Rightarrow>
          (case reserve_credits t n s' of (credits, s'') \<Rightarrow> (credit # credits, s'')))"

fun drop_credits :: "SendCredit list \<Rightarrow> AclDataChannel \<Rightarrow> AclDataChannel" where
  "drop_credits [] s = s"
| "drop_credits (credit # credits) s = drop_credits credits (SendCredit_dtor credit s)"

subsection \<open>Auxiliary notions for the proofs\<close>

text \<open>
  The credit built by \<^verbatim>\<open>ReserveSendCredit\<close>, and a pool with its pending count moved
  by \<open>k\<close>.
\<close>

definition fresh_credit :: "AclTransportType \<Rightarrow> SendCredit" where
  "fresh_credit t = \<lparr>credit_transport = t, relinquish_fn = True\<rparr>"

definition add_pending :: "nat \<Rightarrow> Credits \<Rightarrow> Credits" where
  "add_pending k c = c\<lparr>proxy_pending := proxy_pending c + of_nat k\<rparr>"

definition sub_pending :: "nat \<Rightarrow> Credits \<Rightarrow> Credits" where
  "sub_pending k c = c\<lparr>proxy_pending := proxy_pending c - of_nat k\<rparr>"

subsection \<open>Scenarios\<close>

text \<open>
  The channel of scenario S1 of the spec after the BR/EDR reservation (4 of 10
  credits; 2 reserved for LE), with no connection.
\<close>

definition reserved_channel :: AclDataChannel where
  "reserved_channel =
     \<lparr>le_credits = \<lparr>to_reserve = 2, proxy_max = 2, proxy_pending = 0\<rparr>,
      br_edr_credits = \<lparr>to_reserve = 4, proxy_max = 4, proxy_pending = 0\<rparr>,
      acl_connections = []\<rparr>"

text \<open>
  A channel tracking one BR/EDR connection with the given handle, with \<open>n\<close> packets
  pending on it and in the pool.
\<close>

definition channel_with_pending :: "uint16_t \<Rightarrow> uint16_t \<Rightarrow> AclDataChannel" where
  "channel_with_pending h n =
     \<lparr>le_credits = \<lparr>to_reserve = 2, proxy_max = 2, proxy_pending = 0\<rparr>,
      br_edr_credits = \<lparr>to_reserve = 4, proxy_max = 4, proxy_pending = n\<rparr>,
      acl_connections = [AclConnection_ctor kBrEdr h n]\<rparr>"

text \<open>
  Pair \<open>j\<close> of the event \<open>ev\<close> concerns the host: it reports completed packets
  for a handle that is not tracked, or its handle is tracked and the count left in the
  rewritten event \<open>ev'\<close> is positive.
\<close>

definition pair_for_host ::
  "NumberOfCompletedPacketsEvent \<Rightarrow> NumberOfCompletedPacketsEvent \<Rightarrow> AclDataChannel \<Rightarrow> nat \<Rightarrow> bool" where
  "pair_for_host ev ev' s j =
     ((num_completed_packets (nocp_data ev ! j) \<noteq> 0
         \<and> FindAclConnection (nocp_connection_handle (nocp_data ev ! j)) s = None)
      \<or> (FindAclConnection (nocp_connection_handle (nocp_data ev ! j)) s \<noteq> None
         \<and> num_completed_packets (nocp_data ev' ! j) > 0))"


text \<open>
  Two connection records that differ at most in the recombination slot of direction
  \<open>d\<close>.
\<close>

definition only_slot_changed :: "Direction \<Rightarrow> AclConnection \<Rightarrow> AclConnection \<Rightarrow> bool" where
  "only_slot_changed d c c' =
     (transport c' = transport c
      \<and> connection_handle c' = connection_handle c
      \<and> num_pending_packets c' = num_pending_packets c
      \<and> (\<forall>d'. d' \<noteq> d \<longrightarrow>
            slot d' (recombination_buffers c') = slot d' (recombination_buffers c)))"

text \<open>
  The channel of scenario S5 of the spec: an LE connection with handle \<open>0x40\<close>; an
  L2CAP channel at local CID \<open>0x41\<close> that accepts every PDU; a manager with that
  channel registered and one with no channel; the first fragment and the continuing
  fragment of a PDU of 24 bytes; the channel while the connection accumulates a PDU
  from the controller; a complete PDU in one frame, and a frame longer than its PDU.
\<close>

definition le_channel :: AclDataChannel where
  "le_channel =
     \<lparr>le_credits = \<lparr>to_reserve = 2, proxy_max = 2, proxy_pending = 0\<rparr>,
      br_edr_credits = \<lparr>to_reserve = 4, proxy_max = 4, proxy_pending = 0\<rparr>,
      acl_connections = [AclConnection_ctor kLe 0x40 0]\<rparr>"

definition accepting_channel :: L2capChannel where
  "accepting_channel =
     \<lparr>rx_multibuf_allocator = Some (\<lambda>n. n \<le> 1024),
      HandlePduFromController = (\<lambda>pdu. True),
      HandlePduFromHost = (\<lambda>pdu. True)\<rparr>"

definition registered_manager :: L2capChannelManager where
  "registered_manager =
     \<lparr>FindChannelByLocalCid =
        (\<lambda>h cid. if h = 0x40 \<and> cid = 0x41 then Some accepting_channel else None),
      FindChannelByRemoteCid = (\<lambda>h cid. None)\<rparr>"

definition empty_manager :: L2capChannelManager where
  "empty_manager =
     \<lparr>FindChannelByLocalCid = (\<lambda>h cid. None), FindChannelByRemoteCid = (\<lambda>h cid. None)\<rparr>"

definition first_fragment :: AclDataFrame where
  "first_fragment =
     \<lparr>header = \<lparr>handle = 0x40, packet_boundary_flag = FIRST_FLUSHABLE, data_total_length = 14\<rparr>,
      payload = [20, 0, 0x41, 0, 1, 2, 3, 4, 5, 6, 7, 8, 9, 10]\<rparr>"

definition continuing_fragment :: AclDataFrame where
  "continuing_fragment =
     \<lparr>header = \<lparr>handle = 0x40, packet_boundary_flag = CONTINUING_FRAGMENT, data_total_length = 10\<rparr>,
      payload = [11, 12, 13, 14, 15, 16, 17, 18, 19, 20]\<rparr>"

definition accumulating :: "nat \<Rightarrow> uint8_t list \<Rightarrow> AclDataChannel" where
  "accumulating n bytes =
     le_channel\<lparr>acl_connections :=
       [(AclConnection_ctor kLe 0x40 0)
          \<lparr>recombination_buffers := (Some \<lparr>target_size = n, storage = bytes\<rparr>, None)\<rparr>]\<rparr>"

definition complete_frame :: AclDataFrame where
  "complete_frame =
     \<lparr>header = \<lparr>handle = 0x40, packet_boundary_flag = FIRST_NON_FLUSHABLE, data_total_length = 6\<rparr>,
      payload = [2, 0, 0x41, 0, 0xAA, 0xBB]\<rparr>"

definition oversized_frame :: AclDataFrame where
  "oversized_frame =
     \<lparr>header = \<lparr>handle = 0x40, packet_boundary_flag = FIRST_FLUSHABLE, data_total_length = 6\<rparr>,
      payload = [1, 0, 0x41, 0, 0xAA, 0xBB]\<rparr>"

text \<open>
  What the specification says of one pair, following its words and not the code: a pair
  whose handle is not tracked is left as it is and changes nothing; for a tracked
  handle, \<open>min count num_pending_packets\<close> credits are reclaimed, taken from the
  connection's \<open>num_pending_packets\<close> and from the pending count of its transport
  (which stops at zero), and the pair's count is rewritten to what is left.
\<close>

definition spec_reclaim_pair ::
  "NumberOfCompletedPacketsEventData \<Rightarrow> AclDataChannel
     \<Rightarrow> NumberOfCompletedPacketsEventData \<times> AclDataChannel" where
  "spec_reclaim_pair d s =
     (case FindAclConnection (nocp_connection_handle d) s of
        None \<Rightarrow> (d, s)
      | Some k \<Rightarrow>
          let connection = acl_connections s ! k;
              reclaimed = min (num_completed_packets d) (num_pending_packets connection);
              s1 = LookupCredits_update (transport connection)
                     (\<lambda>pool. pool\<lparr>proxy_pending :=
                               proxy_pending pool - min reclaimed (proxy_pending pool)\<rparr>) s
          in (d\<lparr>num_completed_packets := num_completed_packets d - reclaimed\<rparr>,
              s1\<lparr>acl_connections := (acl_connections s)
                    [k := connection\<lparr>num_pending_packets :=
                           num_pending_packets connection - reclaimed\<rparr>]\<rparr>))"

text \<open>
  The pairs of an event taken in order, each in the state the pairs before it have
  left: the rewritten pairs and the final state.
\<close>

fun spec_reclaim_pairs ::
  "NumberOfCompletedPacketsEventData list \<Rightarrow> AclDataChannel
     \<Rightarrow> NumberOfCompletedPacketsEventData list \<times> AclDataChannel" where
  "spec_reclaim_pairs [] s = ([], s)"
| "spec_reclaim_pairs (d # ds) s =
     (case spec_reclaim_pair d s of
        (d', s1) \<Rightarrow>
          (case spec_reclaim_pairs ds s1 of
             (ds', s2) \<Rightarrow> (d' # ds', s2)))"

text \<open>Pair \<open>j\<close> of the event \<open>ev\<close> had credits reclaimed: its count in \<open>ev'\<close> differs.\<close>

definition pair_reclaimed ::
  "NumberOfCompletedPacketsEvent \<Rightarrow> NumberOfCompletedPacketsEvent \<Rightarrow> nat \<Rightarrow> bool" where
  "pair_reclaimed ev ev' j =
     (num_completed_packets (nocp_data ev' ! j) \<noteq> num_completed_packets (nocp_data ev ! j))"

text \<open>
  The first fragment of a PDU of 65535 bytes for the channel at CID \<open>0x41\<close>: with its
  header an L2CAP frame of 65539 bytes, of which this frame carries 10.
\<close>

definition longest_pdu_fragment :: AclDataFrame where
  "longest_pdu_fragment =
     \<lparr>header = \<lparr>handle = 0x40, packet_boundary_flag = FIRST_FLUSHABLE, data_total_length = 10\<rparr>,
      payload = [0xFF, 0xFF, 0x41, 0, 1, 2, 3, 4, 5, 6]\<rparr>"

section \<open>Auxiliary lemmas\<close>

subsection \<open>Credit pools and credits\<close>

lemma LookupCredits_update_same [simp]:
  "LookupCredits t (LookupCredits_update t f s) = f (LookupCredits t s)"
  by (cases t) simp_all

lemma LookupCredits_update_other [simp]:
  "t' \<noteq> t \<Longrightarrow> LookupCredits t' (LookupCredits_update t f s) = LookupCredits t' s"
  by (cases t; cases t') simp_all

lemma acl_connections_LookupCredits_update [simp]:
  "acl_connections (LookupCredits_update t f s) = acl_connections s"
  by (cases t) simp_all

lemma LookupCredits_update_id:
  "f (LookupCredits t s) = LookupCredits t s \<Longrightarrow> LookupCredits_update t f s = s"
  by (cases t) simp_all

lemma LookupCredits_update_cong:
  "f (LookupCredits t s) = g (LookupCredits t s) \<Longrightarrow>
   LookupCredits_update t f s = LookupCredits_update t g s"
  by (cases t) simp_all

lemma LookupCredits_update_twice:
  "LookupCredits_update t f (LookupCredits_update t g s) = LookupCredits_update t (\<lambda>c. f (g c)) s"
  by (cases t) simp_all

lemma w_lt_of_sub_nz: "p \<le> m \<Longrightarrow> m - p \<noteq> 0 \<Longrightarrow> p < m" for p m :: uint16_t
  by simp

lemma w_unat_inc: "p < m \<Longrightarrow> unat (p + 1) = unat p + 1" for p m :: uint16_t
  by unat_arith

lemma w_unat_dec: "Suc k \<le> unat p \<Longrightarrow> k \<le> unat (p - 1)" for p :: uint16_t
  by unat_arith

lemma w_not_lt1: "Suc k \<le> unat p \<Longrightarrow> \<not> 1 > p" for p :: uint16_t
  by unat_arith

lemma add_pending_Suc: "add_pending k (add_pending (Suc 0) c) = add_pending (Suc k) c"
  by (simp add: add_pending_def ac_simps)

lemma sub_pending_Suc: "sub_pending k (sub_pending (Suc 0) c) = sub_pending (Suc k) c"
  by (simp add: sub_pending_def diff_diff_eq ac_simps)

lemma sub_add_pending: "sub_pending k (add_pending k c) = c"
  by (simp add: sub_pending_def add_pending_def)

lemma ReserveSendCredit_cases:
  "ReserveSendCredit t s =
     (if proxy_max (LookupCredits t s) - proxy_pending (LookupCredits t s) = 0 then (None, s)
      else (Some (fresh_credit t), LookupCredits_update t (add_pending 1) s))"
  by (cases t) (simp_all add: ReserveSendCredit_def MarkPending_def Available_def Remaining_def
        fresh_credit_def add_pending_def)

lemma reserve_credits_shape:
  "proxy_pending (LookupCredits t s) \<le> proxy_max (LookupCredits t s) \<Longrightarrow>
   reserve_credits t n s = (credits, s') \<Longrightarrow>
   \<exists>k. credits = replicate k (fresh_credit t)
       \<and> unat (proxy_pending (LookupCredits t s)) + k \<le> unat (proxy_max (LookupCredits t s))
       \<and> k = min n (unat (proxy_max (LookupCredits t s)) - unat (proxy_pending (LookupCredits t s)))
       \<and> s' = LookupCredits_update t (add_pending k) s"
proof (induction n arbitrary: s credits s')
  case 0
  then show ?case by (simp add: add_pending_def LookupCredits_update_id word_le_nat_alt)
next
  case (Suc n)
  let ?c = "LookupCredits t s"
  show ?case
  proof (cases "proxy_max ?c - proxy_pending ?c = 0")
    case True
    with Suc.prems(2) have "reserve_credits t n s = (credits, s')"
      by (simp add: ReserveSendCredit_cases)
    from Suc.IH[OF Suc.prems(1) this] obtain k where k:
      "credits = replicate k (fresh_credit t)"
      "unat (proxy_pending ?c) + k \<le> unat (proxy_max ?c)"
      "k = min n (unat (proxy_max ?c) - unat (proxy_pending ?c))"
      "s' = LookupCredits_update t (add_pending k) s" by blast
    from True have "unat (proxy_max ?c) - unat (proxy_pending ?c) = 0"
      by (simp add: unat_sub[OF Suc.prems(1), symmetric])
    with k(3) have "k = min (Suc n) (unat (proxy_max ?c) - unat (proxy_pending ?c))" by simp
    with k show ?thesis by blast
  next
    case False
    let ?s1 = "LookupCredits_update t (add_pending 1) s"
    have lt: "proxy_pending ?c < proxy_max ?c"
      by (rule w_lt_of_sub_nz[OF Suc.prems(1) False])
    then have u1: "unat (proxy_pending ?c + 1) = unat (proxy_pending ?c) + 1"
      by (rule w_unat_inc)
    from lt have le1: "proxy_pending (LookupCredits t ?s1) \<le> proxy_max (LookupCredits t ?s1)"
      by (simp add: add_pending_def inc_le)
    obtain cs s2 where rc: "reserve_credits t n ?s1 = (cs, s2)" by force
    with False Suc.prems(2) have eq: "credits = fresh_credit t # cs" "s' = s2"
      by (auto simp: ReserveSendCredit_cases)
    from Suc.IH[OF le1 rc] obtain k where k:
      "cs = replicate k (fresh_credit t)"
      "unat (proxy_pending (LookupCredits t ?s1)) + k \<le> unat (proxy_max (LookupCredits t ?s1))"
      "k = min n (unat (proxy_max (LookupCredits t ?s1)) - unat (proxy_pending (LookupCredits t ?s1)))"
      "s2 = LookupCredits_update t (add_pending k) ?s1" by blast
    have "credits = replicate (Suc k) (fresh_credit t)" using eq k by simp
    moreover have "unat (proxy_pending ?c) + Suc k \<le> unat (proxy_max ?c)"
      using k(2) u1 by (simp add: add_pending_def)
    moreover have "Suc k = min (Suc n) (unat (proxy_max ?c) - unat (proxy_pending ?c))"
    proof -
      from lt have "unat (proxy_pending ?c) < unat (proxy_max ?c)" by (simp add: word_less_nat_alt)
      moreover from k(3) u1 have "k = min n (unat (proxy_max ?c) - (unat (proxy_pending ?c) + 1))"
        by (simp add: add_pending_def)
      ultimately show ?thesis by linarith
    qed
    moreover have "s' = LookupCredits_update t (add_pending (Suc k)) s"
      using eq k(4) by (simp add: LookupCredits_update_twice add_pending_Suc)
    ultimately show ?thesis by blast
  qed
qed

lemma drop_credits_replicate:
  "k \<le> unat (proxy_pending (LookupCredits t s)) \<Longrightarrow>
   drop_credits (replicate k (fresh_credit t)) s = LookupCredits_update t (sub_pending k) s"
proof (induction k arbitrary: s)
  case 0
  have "sub_pending 0 (LookupCredits t s) = LookupCredits t s"
    by (simp add: sub_pending_def)
  then show ?case by (simp add: LookupCredits_update_id)
next
  case (Suc k)
  let ?c = "LookupCredits t s"
  let ?s1 = "LookupCredits_update t (sub_pending (Suc 0)) s"
  from Suc.prems have nz: "\<not> 1 > proxy_pending ?c" by (rule w_not_lt1)
  then have "MarkCompleted 1 ?c = sub_pending (Suc 0) ?c"
    by (simp add: MarkCompleted_def sub_pending_def)
  then have "LookupCredits_update t (MarkCompleted 1) s = ?s1"
    by (rule LookupCredits_update_cong)
  then have d: "SendCredit_dtor (fresh_credit t) s = ?s1"
    by (simp add: SendCredit_dtor_def fresh_credit_def)
  have "proxy_pending (LookupCredits t ?s1) = proxy_pending ?c - 1"
    by (simp add: sub_pending_def)
  with w_unat_dec[OF Suc.prems] have "k \<le> unat (proxy_pending (LookupCredits t ?s1))"
    by simp
  from Suc.IH[OF this]
  have "drop_credits (replicate k (fresh_credit t)) ?s1
          = LookupCredits_update t (\<lambda>c. sub_pending k (sub_pending (Suc 0) c)) s"
    by (simp only: LookupCredits_update_twice)
  then have "drop_credits (replicate k (fresh_credit t)) ?s1
          = LookupCredits_update t (sub_pending (Suc k)) s"
    by (simp only: sub_pending_Suc)
  then show ?case
    by (simp only: replicate_Suc drop_credits.simps d)
qed

lemma reserve_then_drop:
  assumes "proxy_pending (LookupCredits t s) \<le> proxy_max (LookupCredits t s)"
    and "reserve_credits t n s = (credits, s')"
  shows "drop_credits credits s' = s"
proof -
  from reserve_credits_shape[OF assms] obtain k where k:
    "credits = replicate k (fresh_credit t)"
    "unat (proxy_pending (LookupCredits t s)) + k \<le> unat (proxy_max (LookupCredits t s))"
    "s' = LookupCredits_update t (add_pending k) s" by blast
  from k(2) have "k \<le> unat (proxy_max (LookupCredits t s))" by simp
  then have uk: "unat (of_nat k :: uint16_t) = k" by (rule le_unat_uoi)
  have "unat (proxy_pending (LookupCredits t s) + of_nat k) = unat (proxy_pending (LookupCredits t s)) + k"
  proof -
    have "unat (proxy_max (LookupCredits t s)) < 2 ^ LENGTH(16)" by (rule unsigned_less)
    with k(2) uk have "unat (proxy_pending (LookupCredits t s)) + unat (of_nat k :: uint16_t) < 2 ^ LENGTH(16)"
      by simp
    then show ?thesis using uk by (simp only: unat_add_lem [THEN iffD1])
  qed
  then have "k \<le> unat (proxy_pending (LookupCredits t s'))"
    by (simp add: k(3) add_pending_def)
  from drop_credits_replicate[OF this]
  have "drop_credits credits s' = LookupCredits_update t (sub_pending k) s'"
    by (simp only: k(1))
  also have "\<dots> = LookupCredits_update t (\<lambda>c. sub_pending k (add_pending k c)) s"
    by (simp only: k(3) LookupCredits_update_twice)
  also have "\<dots> = s"
    by (simp only: sub_add_pending LookupCredits_update_id)
  finally show ?thesis .
qed

subsection \<open>Finding and erasing connections\<close>

lemma FindIf_Some_less: "FindIf p xs = Some i \<Longrightarrow> i < length xs \<and> p (xs ! i)"
proof (induction xs arbitrary: i)
  case Nil
  then show ?case by simp
next
  case (Cons x xs)
  then show ?case by (auto split: if_splits option.splits)
qed

lemma FindIf_None_iff: "FindIf p xs = None \<longleftrightarrow> (\<forall>x \<in> set xs. \<not> p x)"
  by (induction xs) (auto split: option.splits)

lemma FindAclConnection_Some:
  "FindAclConnection h s = Some i \<Longrightarrow>
   i < length (acl_connections s) \<and> connection_handle (acl_connections s ! i) = h"
  unfolding FindAclConnection_def by (drule FindIf_Some_less) simp

lemma MarkCompleted_zero: "MarkCompleted 0 c = c"
  by (simp add: MarkCompleted_def)

lemma unat_MarkCompleted:
  "unat (proxy_pending (MarkCompleted n c)) = unat (proxy_pending c) - unat n"
proof (cases "n > proxy_pending c")
  case True
  then have "unat (proxy_pending c) < unat n" by (simp add: word_less_nat_alt)
  with True show ?thesis by (simp add: MarkCompleted_def)
next
  case False
  then have "n \<le> proxy_pending c" by simp
  then have "unat (proxy_pending c - n) = unat (proxy_pending c) - unat n" by (rule unat_sub)
  with False show ?thesis by (simp add: MarkCompleted_def)
qed

lemma MarkCompleted_fields [simp]:
  "proxy_max (MarkCompleted n c) = proxy_max c" "to_reserve (MarkCompleted n c) = to_reserve c"
  by (simp_all add: MarkCompleted_def)

lemma distinct_erase_no_handle:
  assumes "distinct (map f xs)" "i < length xs"
  shows "\<forall>x \<in> set (erase i xs). f x \<noteq> f (xs ! i)"
proof -
  have xs: "xs = take i xs @ xs ! i # drop (Suc i) xs"
    using assms(2) by (rule id_take_nth_drop)
  have "distinct (map f (take i xs @ xs ! i # drop (Suc i) xs))"
    using assms(1) xs by simp
  then have "f (xs ! i) \<notin> f ` set (take i xs)" "f (xs ! i) \<notin> f ` set (drop (Suc i) xs)"
    by auto
  then show ?thesis
    unfolding erase_def by (metis Un_iff imageI set_append)
qed

lemma reserve_credits_from_zero:
  assumes z: "proxy_pending (LookupCredits t s) = 0"
    and r: "reserve_credits t n s = (credits, s')"
  shows "credits = replicate (min n (unat (proxy_max (LookupCredits t s)))) (fresh_credit t)"
    and "pool_pending t s' = length credits"
    and "drop_credits credits s' = s"
proof -
  from z have le: "proxy_pending (LookupCredits t s) \<le> proxy_max (LookupCredits t s)" by simp
  from reserve_credits_shape[OF le r] obtain k where k:
    "credits = replicate k (fresh_credit t)"
    "k = min n (unat (proxy_max (LookupCredits t s)) - unat (proxy_pending (LookupCredits t s)))"
    "s' = LookupCredits_update t (add_pending k) s" by blast
  from k(2) z have k': "k = min n (unat (proxy_max (LookupCredits t s)))" by simp
  with k(1) show "credits = replicate (min n (unat (proxy_max (LookupCredits t s)))) (fresh_credit t)"
    by simp
  from k' have "k \<le> unat (proxy_max (LookupCredits t s))" by simp
  then have "unat (of_nat k :: uint16_t) = k" by (rule le_unat_uoi)
  with k(1,3) z show "pool_pending t s' = length credits"
    by (simp add: pool_pending_def add_pending_def)
  from reserve_then_drop[OF le r] show "drop_credits credits s' = s" .
qed

subsection \<open>The loop over the completed-packets pairs\<close>

lemma FindIf_cong_map:
  "map f xs = map f ys \<Longrightarrow> FindIf (\<lambda>x. f x = h) xs = FindIf (\<lambda>x. f x = h) ys"
proof (induction xs arbitrary: ys)
  case Nil
  then show ?case by simp
next
  case (Cons x xs)
  then obtain y ys' where "ys = y # ys'" by (cases ys) auto
  with Cons show ?case by auto
qed

lemma FindAclConnection_handles:
  "map connection_handle (acl_connections s') = map connection_handle (acl_connections s) \<Longrightarrow>
   FindAclConnection h s' = FindAclConnection h s"
  unfolding FindAclConnection_def by (rule FindIf_cong_map)

lemma nocp_entry_tracked:
  assumes f: "FindAclConnection (nocp_connection_handle d) s = Some k"
  shows "nocp_entry d s =
     (let connection = acl_connections s ! k;
          num_reclaimed = min (num_completed_packets d) (num_pending_packets connection)
      in (d\<lparr>num_completed_packets := num_completed_packets d - num_reclaimed\<rparr>,
          (LookupCredits_update (transport connection) (MarkCompleted num_reclaimed) s)
            \<lparr>acl_connections := (acl_connections s)
               [k := connection\<lparr>num_pending_packets :=
                      num_pending_packets connection - num_reclaimed\<rparr>]\<rparr>,
          num_completed_packets d - num_reclaimed > 0,
          num_reclaimed > 0))"
proof (cases "num_completed_packets d = 0")
  case True
  have "(acl_connections s)[k := acl_connections s ! k] = acl_connections s"
    by (rule list_update_id)
  with True show ?thesis
    by (simp add: nocp_entry_def Let_def MarkCompleted_zero LookupCredits_update_id)
next
  case False
  with f show ?thesis
    by (simp add: nocp_entry_def Let_def del: word_gt_0 word_gt_0_no)
qed

lemma nocp_entry_untracked:
  "FindAclConnection (nocp_connection_handle d) s = None \<Longrightarrow>
   nocp_entry d s = (d, s, num_completed_packets d \<noteq> 0, False)"
  by (simp add: nocp_entry_def)

lemma nocp_entry_handles:
  assumes "nocp_entry d s = (d', s', send, recl)"
  shows "map connection_handle (acl_connections s') = map connection_handle (acl_connections s)"
    and "nocp_connection_handle d' = nocp_connection_handle d"
proof -
  show "map connection_handle (acl_connections s') = map connection_handle (acl_connections s)"
  proof (cases "FindAclConnection (nocp_connection_handle d) s")
    case None
    with assms show ?thesis by (simp add: nocp_entry_untracked)
  next
    case (Some k)
    from FindAclConnection_Some[OF Some] assms show ?thesis
      by (auto simp: nocp_entry_tracked[OF Some] Let_def map_update list_update_same_conv)
  qed
  show "nocp_connection_handle d' = nocp_connection_handle d"
    using assms by (cases "FindAclConnection (nocp_connection_handle d) s")
      (auto simp: nocp_entry_untracked nocp_entry_tracked Let_def)
qed

lemma nocp_entry_send:
  assumes "nocp_entry d s = (d', s', send, recl)"
  shows "send \<longleftrightarrow>
           (num_completed_packets d \<noteq> 0 \<and> FindAclConnection (nocp_connection_handle d) s = None)
         \<or> (FindAclConnection (nocp_connection_handle d) s \<noteq> None \<and> num_completed_packets d' > 0)"
proof (cases "FindAclConnection (nocp_connection_handle d) s")
  case None
  with assms show ?thesis by (auto simp: nocp_entry_untracked)
next
  case (Some k)
  with assms show ?thesis
    by (auto simp: nocp_entry_tracked[OF Some] Let_def simp del: word_gt_0 word_gt_0_no)
qed

lemma nocp_loop_untouched:
  "nocp_loop i ev s a b = (ev', s', a', b') \<Longrightarrow>
   num_handles ev' = num_handles ev
   \<and> length (nocp_data ev') = length (nocp_data ev)
   \<and> (\<forall>j. j < i \<or> unat (num_handles ev) \<le> j \<longrightarrow> nocp_data ev' ! j = nocp_data ev ! j)
   \<and> map connection_handle (acl_connections s') = map connection_handle (acl_connections s)"
proof (induction i ev s a b rule: nocp_loop.induct)
  case (1 i ev s a b)
  show ?case
  proof (cases "i < unat (num_handles ev)")
    case False
    with "1.prems" show ?thesis by (simp add: nocp_loop.simps)
  next
    case True
    obtain d' s1 send recl where e: "nocp_entry (nocp_data ev ! i) s = (d', s1, send, recl)"
      by (metis prod_cases4)
    let ?ev1 = "ev\<lparr>nocp_data := (nocp_data ev)[i := d']\<rparr>"
    from True e "1.prems"
    have l: "nocp_loop (Suc i) ?ev1 s1 (a \<or> send) (b \<or> recl) = (ev', s', a', b')"
      by (subst (asm) nocp_loop.simps) simp
    from "1.IH"[OF True e[symmetric] refl refl l] nocp_entry_handles(1)[OF e] True
    show ?thesis by (auto simp: nth_list_update)
  qed
qed

lemma ex_range_split:
  "i < n \<Longrightarrow> (\<exists>j. i \<le> j \<and> j < n \<and> Q j) \<longleftrightarrow> Q i \<or> (\<exists>j. Suc i \<le> j \<and> j < (n::nat) \<and> Q j)"
  by (metis Suc_leD Suc_leI le_neq_implies_less order_refl)

lemma nocp_loop_send:
  "nocp_loop i ev s a b = (ev', s', a', b') \<Longrightarrow>
   unat (num_handles ev) \<le> length (nocp_data ev) \<Longrightarrow>
   a' \<longleftrightarrow> a \<or> (\<exists>j. i \<le> j \<and> j < unat (num_handles ev) \<and> pair_for_host ev ev' s j)"
proof (induction i ev s a b rule: nocp_loop.induct)
  case (1 i ev s a b)
  let ?n = "unat (num_handles ev)"
  show ?case
  proof (cases "i < ?n")
    case False
    with "1.prems" show ?thesis by (auto simp: nocp_loop.simps)
  next
    case True
    obtain d' s1 send recl where e: "nocp_entry (nocp_data ev ! i) s = (d', s1, send, recl)"
      by (metis prod_cases4)
    let ?ev1 = "ev\<lparr>nocp_data := (nocp_data ev)[i := d']\<rparr>"
    from True e "1.prems"(1)
    have l: "nocp_loop (Suc i) ?ev1 s1 (a \<or> send) (b \<or> recl) = (ev', s', a', b')"
      by (subst (asm) nocp_loop.simps) simp
    have len: "unat (num_handles ?ev1) \<le> length (nocp_data ?ev1)"
      using "1.prems"(2) by simp
    have IH: "a' \<longleftrightarrow> (a \<or> send) \<or> (\<exists>j. Suc i \<le> j \<and> j < ?n \<and> pair_for_host ?ev1 ev' s1 j)"
      using "1.IH"[OF True e[symmetric] refl refl l len] by simp
    have find: "FindAclConnection h s1 = FindAclConnection h s" for h
      using nocp_entry_handles(1)[OF e] by (rule FindAclConnection_handles)
    from nocp_loop_untouched[OF l] True "1.prems"(2)
    have at_i: "nocp_data ev' ! i = d'" by simp
    have send: "send \<longleftrightarrow> pair_for_host ev ev' s i"
      unfolding pair_for_host_def using nocp_entry_send[OF e] by (simp only: at_i)
    have rest: "pair_for_host ?ev1 ev' s1 j \<longleftrightarrow> pair_for_host ev ev' s j" if "Suc i \<le> j" for j
      using that by (simp add: pair_for_host_def find)
    have "(\<exists>j. Suc i \<le> j \<and> j < ?n \<and> pair_for_host ?ev1 ev' s1 j)
          \<longleftrightarrow> (\<exists>j. Suc i \<le> j \<and> j < ?n \<and> pair_for_host ev ev' s j)"
      using rest by blast
    with IH send
    have "a' \<longleftrightarrow> a \<or> (pair_for_host ev ev' s i
                    \<or> (\<exists>j. Suc i \<le> j \<and> j < ?n \<and> pair_for_host ev ev' s j))"
      by blast
    then show ?thesis
      by (simp only: ex_range_split[OF True, symmetric])
  qed
qed

subsection \<open>The loop against the specification of the pairs\<close>

lemma MarkCompleted_min:
  "MarkCompleted n c = c\<lparr>proxy_pending := proxy_pending c - min n (proxy_pending c)\<rparr>"
  by (auto simp: MarkCompleted_def min_def not_less)

lemma nocp_entry_spec:
  assumes e: "nocp_entry d s = (d', s1, send, recl)"
  shows "spec_reclaim_pair d s = (d', s1)"
    and "recl \<longleftrightarrow> num_completed_packets d' \<noteq> num_completed_packets d"
proof -
  show "spec_reclaim_pair d s = (d', s1)"
  proof (cases "FindAclConnection (nocp_connection_handle d) s")
    case None
    with e show ?thesis by (simp add: nocp_entry_untracked spec_reclaim_pair_def)
  next
    case (Some k)
    have "MarkCompleted n = (\<lambda>pool. pool\<lparr>proxy_pending :=
                               proxy_pending pool - min n (proxy_pending pool)\<rparr>)" for n
      by (rule ext) (rule MarkCompleted_min)
    with e Some show ?thesis
      by (simp add: nocp_entry_tracked[OF Some] spec_reclaim_pair_def Let_def)
  qed
  show "recl \<longleftrightarrow> num_completed_packets d' \<noteq> num_completed_packets d"
  proof (cases "FindAclConnection (nocp_connection_handle d) s")
    case None
    with e show ?thesis by (auto simp: nocp_entry_untracked)
  next
    case (Some k)
    with e show ?thesis
      by (auto simp: nocp_entry_tracked[OF Some] Let_def word_gt_0)
  qed
qed

lemma spec_reclaim_pairs_length:
  "length (fst (spec_reclaim_pairs ds s)) = length ds"
proof (induction ds arbitrary: s)
  case Nil
  then show ?case by simp
next
  case (Cons d ds)
  obtain d' s1 where p: "spec_reclaim_pair d s = (d', s1)" by (metis prod.exhaust)
  obtain ds' s2 where q: "spec_reclaim_pairs ds s1 = (ds', s2)" by (metis prod.exhaust)
  from Cons[of s1] p q show ?case by simp
qed

lemma spec_reclaim_pairs_snoc:
  "spec_reclaim_pairs (xs @ [d]) s =
     (case spec_reclaim_pairs xs s of
        (xs', s1) \<Rightarrow> (case spec_reclaim_pair d s1 of (d', s2) \<Rightarrow> (xs' @ [d'], s2)))"
  by (induction xs arbitrary: s) (auto split: prod.splits)

lemma spec_reclaim_pairs_nth:
  "j < length ds \<Longrightarrow>
   (fst (spec_reclaim_pairs ds s) ! j, snd (spec_reclaim_pairs (take (Suc j) ds) s))
     = spec_reclaim_pair (ds ! j) (snd (spec_reclaim_pairs (take j ds) s))"
proof (induction ds arbitrary: j s)
  case Nil
  then show ?case by simp
next
  case (Cons d ds)
  show ?case
  proof (cases j)
    case 0
    then show ?thesis by (auto split: prod.splits)
  next
    case (Suc j')
    obtain d' s1 where p: "spec_reclaim_pair d s = (d', s1)" by (metis prod.exhaust)
    from Cons.prems Suc have "j' < length ds" by simp
    from Cons.IH[OF this, of s1] Suc p show ?thesis
      by (auto split: prod.splits)
  qed
qed

lemma nocp_loop_reclaimed:
  "nocp_loop i ev s a b = (ev', s', a', b') \<Longrightarrow>
   unat (num_handles ev) \<le> length (nocp_data ev) \<Longrightarrow>
   b' \<longleftrightarrow> b \<or> (\<exists>j. i \<le> j \<and> j < unat (num_handles ev) \<and> pair_reclaimed ev ev' j)"
proof (induction i ev s a b rule: nocp_loop.induct)
  case (1 i ev s a b)
  let ?n = "unat (num_handles ev)"
  show ?case
  proof (cases "i < ?n")
    case False
    with "1.prems" show ?thesis by (auto simp: nocp_loop.simps)
  next
    case True
    obtain d' s1 send recl where e: "nocp_entry (nocp_data ev ! i) s = (d', s1, send, recl)"
      by (metis prod_cases4)
    let ?ev1 = "ev\<lparr>nocp_data := (nocp_data ev)[i := d']\<rparr>"
    from True e "1.prems"(1)
    have l: "nocp_loop (Suc i) ?ev1 s1 (a \<or> send) (b \<or> recl) = (ev', s', a', b')"
      by (subst (asm) nocp_loop.simps) simp
    have len: "unat (num_handles ?ev1) \<le> length (nocp_data ?ev1)"
      using "1.prems"(2) by simp
    have IH: "b' \<longleftrightarrow> (b \<or> recl) \<or> (\<exists>j. Suc i \<le> j \<and> j < ?n \<and> pair_reclaimed ?ev1 ev' j)"
      using "1.IH"[OF True e[symmetric] refl refl l len] by simp
    from nocp_loop_untouched[OF l] True "1.prems"(2)
    have at_i: "nocp_data ev' ! i = d'" by simp
    have recl: "recl \<longleftrightarrow> pair_reclaimed ev ev' i"
      unfolding pair_reclaimed_def using nocp_entry_spec(2)[OF e] by (simp only: at_i)
    have rest: "pair_reclaimed ?ev1 ev' j \<longleftrightarrow> pair_reclaimed ev ev' j" if "Suc i \<le> j" for j
      using that by (simp add: pair_reclaimed_def)
    have "(\<exists>j. Suc i \<le> j \<and> j < ?n \<and> pair_reclaimed ?ev1 ev' j)
          \<longleftrightarrow> (\<exists>j. Suc i \<le> j \<and> j < ?n \<and> pair_reclaimed ev ev' j)"
      using rest by blast
    with IH recl
    have "b' \<longleftrightarrow> b \<or> (pair_reclaimed ev ev' i
                    \<or> (\<exists>j. Suc i \<le> j \<and> j < ?n \<and> pair_reclaimed ev ev' j))"
      by blast
    then show ?thesis
      by (simp only: ex_range_split[OF True, symmetric])
  qed
qed

lemma take_drop_Cons:
  "i < n \<Longrightarrow> n \<le> length xs \<Longrightarrow>
   take (n - i) (drop i xs) = xs ! i # take (n - Suc i) (drop (Suc i) xs)"
proof -
  assume a: "i < n" "n \<le> length xs"
  then have "drop i xs = xs ! i # drop (Suc i) xs" by (simp add: Cons_nth_drop_Suc)
  moreover from a obtain m where "n - i = Suc m" "n - Suc i = m" by (cases "n - i") auto
  ultimately show ?thesis by simp
qed

lemma nocp_loop_spec:
  "nocp_loop i ev s a b = (ev', s', a', b') \<Longrightarrow>
   i \<le> unat (num_handles ev) \<Longrightarrow>
   unat (num_handles ev) \<le> length (nocp_data ev) \<Longrightarrow>
   spec_reclaim_pairs (take (unat (num_handles ev) - i) (drop i (nocp_data ev))) s
     = (take (unat (num_handles ev) - i) (drop i (nocp_data ev')), s')"
proof (induction i ev s a b rule: nocp_loop.induct)
  case (1 i ev s a b)
  let ?n = "unat (num_handles ev)"
  show ?case
  proof (cases "i < ?n")
    case False
    with "1.prems" show ?thesis by (auto simp: nocp_loop.simps)
  next
    case True
    obtain d' s1 send recl where e: "nocp_entry (nocp_data ev ! i) s = (d', s1, send, recl)"
      by (metis prod_cases4)
    let ?ev1 = "ev\<lparr>nocp_data := (nocp_data ev)[i := d']\<rparr>"
    from True e "1.prems"(1)
    have l: "nocp_loop (Suc i) ?ev1 s1 (a \<or> send) (b \<or> recl) = (ev', s', a', b')"
      by (subst (asm) nocp_loop.simps) simp
    have len: "unat (num_handles ?ev1) \<le> length (nocp_data ?ev1)"
      using "1.prems"(3) by simp
    have le: "Suc i \<le> unat (num_handles ?ev1)" using True by simp
    have IH: "spec_reclaim_pairs (take (?n - Suc i) (drop (Suc i) (nocp_data ev))) s1
               = (take (?n - Suc i) (drop (Suc i) (nocp_data ev')), s')"
      using "1.IH"[OF True e[symmetric] refl refl l le len] by simp
    from nocp_loop_untouched[OF l] True "1.prems"(3)
    have at_i: "nocp_data ev' ! i = d'" and len': "?n \<le> length (nocp_data ev')" by simp_all
    have "spec_reclaim_pairs (take (?n - i) (drop i (nocp_data ev))) s
            = (d' # take (?n - Suc i) (drop (Suc i) (nocp_data ev')), s')"
      by (simp add: take_drop_Cons[OF True "1.prems"(3)] nocp_entry_spec(1)[OF e] IH)
    also have "d' # take (?n - Suc i) (drop (Suc i) (nocp_data ev'))
                 = take (?n - i) (drop i (nocp_data ev'))"
      by (simp add: take_drop_Cons[OF True len'] at_i)
    finally show ?thesis .
  qed
qed

lemma nocp_loop_event:
  assumes l: "nocp_loop 0 ev s False False = (ev', s', a', b')"
    and len: "unat (num_handles ev) \<le> length (nocp_data ev)"
    and sp: "spec_reclaim_pairs (take (unat (num_handles ev)) (nocp_data ev)) s = (ds', s2)"
  shows "s' = s2"
    and "ev' = ev\<lparr>nocp_data := ds' @ drop (unat (num_handles ev)) (nocp_data ev)\<rparr>"
proof -
  let ?n = "unat (num_handles ev)"
  from nocp_loop_spec[OF l _ len] sp
  have r: "ds' = take ?n (nocp_data ev')" "s2 = s'" by simp_all
  from r(2) show "s' = s2" by simp
  from nocp_loop_untouched[OF l]
  have nh: "num_handles ev' = num_handles ev"
    and ln: "length (nocp_data ev') = length (nocp_data ev)"
    and un: "\<And>j. ?n \<le> j \<Longrightarrow> nocp_data ev' ! j = nocp_data ev ! j"
    by simp_all
  have "drop ?n (nocp_data ev') = drop ?n (nocp_data ev)"
    by (rule nth_equalityI) (simp_all add: ln un)
  then have "nocp_data ev' = ds' @ drop ?n (nocp_data ev)"
    using r(1) by (metis append_take_drop_id)
  with nh show "ev' = ev\<lparr>nocp_data := ds' @ drop (unat (num_handles ev)) (nocp_data ev)\<rparr>"
    by (cases ev; cases ev') simp
qed

lemma MarkCompleted_fun:
  "(\<lambda>pool. pool\<lparr>proxy_pending := proxy_pending pool - min n (proxy_pending pool)\<rparr>)
     = MarkCompleted n"
  by (rule ext) (rule MarkCompleted_min[symmetric])

lemma spec_reclaim_pair_tracked:
  assumes f: "FindAclConnection (nocp_connection_handle d) s = Some k"
  shows "case spec_reclaim_pair d s of
         (d', s') \<Rightarrow>
           let connection = acl_connections s ! k;
               num_reclaimed = min (num_completed_packets d) (num_pending_packets connection)
           in d' = d\<lparr>num_completed_packets := num_completed_packets d - num_reclaimed\<rparr>
              \<and> acl_connections s' = (acl_connections s)
                    [k := connection\<lparr>num_pending_packets :=
                            num_pending_packets connection - num_reclaimed\<rparr>]
              \<and> pool_pending (transport connection) s'
                    = pool_pending (transport connection) s - unat num_reclaimed
              \<and> (\<forall>t. t \<noteq> transport connection \<longrightarrow> LookupCredits t s' = LookupCredits t s)
              \<and> proxy_max (LookupCredits (transport connection) s')
                    = proxy_max (LookupCredits (transport connection) s)"
proof -
  have lk: "LookupCredits t (s1\<lparr>acl_connections := xs\<rparr>) = LookupCredits t s1" for t s1 xs
    by (cases t) simp_all
  show ?thesis
    by (simp add: spec_reclaim_pair_def f Let_def MarkCompleted_fun lk pool_pending_def
        unat_MarkCompleted)
qed

lemma nocp_entry_as_spec:
  "nocp_entry d s =
     (case spec_reclaim_pair d s of
        (d', s') \<Rightarrow>
          (d', s',
           (num_completed_packets d \<noteq> 0
              \<and> FindAclConnection (nocp_connection_handle d) s = None)
           \<or> (FindAclConnection (nocp_connection_handle d) s \<noteq> None
              \<and> num_completed_packets d' > 0),
           num_completed_packets d' \<noteq> num_completed_packets d))"
proof -
  obtain d' s1 send recl where e: "nocp_entry d s = (d', s1, send, recl)"
    by (metis prod_cases4)
  from nocp_entry_send[OF e] nocp_entry_spec[OF e] e show ?thesis
    by (simp del: word_gt_0 word_gt_0_no)
qed

lemma HandleNumberOfCompletedPacketsEvent_spec:
  assumes w: "MakeNumberOfCompletedPacketsEventWriter h4_packet = Some ev"
    and sp: "spec_reclaim_pairs (take (unat (num_handles ev)) (nocp_data ev)) s = (ds', s')"
  defines "ev' \<equiv> ev\<lparr>nocp_data := ds' @ drop (unat (num_handles ev)) (nocp_data ev)\<rparr>"
  shows "HandleNumberOfCompletedPacketsEvent h4_packet s
           = (s', (if \<exists>j < unat (num_handles ev). pair_reclaimed ev ev' j
                   then [DrainChannelQueues] else [])
                  @ (if \<exists>j < unat (num_handles ev). pair_for_host ev ev' s j
                     then [SendToHost ev'] else []))"
    and "length ds' = unat (num_handles ev)"
    and "\<forall>j < unat (num_handles ev).
           (nocp_data ev' ! j, snd (spec_reclaim_pairs (take (Suc j) (nocp_data ev)) s))
             = spec_reclaim_pair (nocp_data ev ! j)
                 (snd (spec_reclaim_pairs (take j (nocp_data ev)) s))"
proof -
  let ?n = "unat (num_handles ev)"
  from w have len: "?n \<le> length (nocp_data ev)"
    by (auto simp: MakeNumberOfCompletedPacketsEventWriter_def split: if_splits)
  obtain ev1 s1 forwarded reclaimed
    where l: "nocp_loop 0 ev s False False = (ev1, s1, forwarded, reclaimed)"
    by (metis prod_cases4)
  from nocp_loop_event[OF l len sp] have s1: "s1 = s'" and ev1: "ev1 = ev'"
    by (simp_all add: ev'_def)
  have fw: "forwarded \<longleftrightarrow> (\<exists>j < ?n. pair_for_host ev ev' s j)"
    using nocp_loop_send[OF l len] by (simp add: ev1)
  have rc: "reclaimed \<longleftrightarrow> (\<exists>j < ?n. pair_reclaimed ev ev' j)"
    using nocp_loop_reclaimed[OF l len] by (simp add: ev1)
  show "HandleNumberOfCompletedPacketsEvent h4_packet s
           = (s', (if \<exists>j < ?n. pair_reclaimed ev ev' j then [DrainChannelQueues] else [])
                  @ (if \<exists>j < ?n. pair_for_host ev ev' s j then [SendToHost ev'] else []))"
    by (simp only: HandleNumberOfCompletedPacketsEvent_def w l option.case prod.case s1 ev1 fw rc)
  from spec_reclaim_pairs_length[of "take ?n (nocp_data ev)" s] sp len
  show dl: "length ds' = ?n" by simp
  show "\<forall>j < ?n.
           (nocp_data ev' ! j, snd (spec_reclaim_pairs (take (Suc j) (nocp_data ev)) s))
             = spec_reclaim_pair (nocp_data ev ! j)
                 (snd (spec_reclaim_pairs (take j (nocp_data ev)) s))"
  proof (intro allI impI)
    fix j assume j: "j < ?n"
    with len have jl: "j < length (take ?n (nocp_data ev))" by simp
    from j have m: "min (Suc j) ?n = Suc j" "min j ?n = j" by simp_all
    from spec_reclaim_pairs_nth[OF jl, of s] sp j dl
    show "(nocp_data ev' ! j, snd (spec_reclaim_pairs (take (Suc j) (nocp_data ev)) s))
             = spec_reclaim_pair (nocp_data ev ! j)
                 (snd (spec_reclaim_pairs (take j (nocp_data ev)) s))"
      by (simp add: ev'_def nth_append m)
  qed
qed

lemma ex_less_two: "(\<exists>j < (2::nat). P j) \<longleftrightarrow> P 0 \<or> P 1"
  by (auto simp: less_2_cases_iff)

lemma ex_less_one: "(\<exists>j < (1::nat). P j) \<longleftrightarrow> P 0"
  by auto

subsection \<open>The credit identity, operation by operation\<close>






lemma LookupCredits_acl_connections_update [simp]:
  "LookupCredits t (s\<lparr>acl_connections := xs\<rparr>) = LookupCredits t s"
  by (cases t) simp_all

lemma pool_pending_simps [simp]:
  "pool_pending t (s\<lparr>acl_connections := xs\<rparr>) = pool_pending t s"
  "pool_pending t (LookupCredits_update t f s) = unat (proxy_pending (f (LookupCredits t s)))"
  "t \<noteq> t' \<Longrightarrow> pool_pending t (LookupCredits_update t' f s) = pool_pending t s"
  by (simp_all add: pool_pending_def)






lemma live_credits_append [simp]:
  "live_credits t (xs @ [c]) = live_credits t xs + live_of t c"
  by (simp add: live_credits_def)








subsection \<open>Recombination slots and the classifier\<close>

lemma slot_update_same [simp]: "slot d (slot_update d v b) = v"
  by (cases d) simp_all

lemma slot_update_other [simp]: "d' \<noteq> d \<Longrightarrow> slot d' (slot_update d v b) = slot d' b"
  by (cases d; cases d') simp_all

lemma slot_update_id [simp]: "slot_update d (slot d b) b = b"
  by (cases d) simp_all

lemma slot_update_twice [simp]: "slot_update d v (slot_update d w b) = slot_update d v b"
  by (cases d) simp_all

lemma EndRecombination_inactive:
  "\<not> RecombinationActive c d \<Longrightarrow> EndRecombination d c = c"
proof -
  assume "\<not> RecombinationActive c d"
  then have "slot d (recombination_buffers c) = None" by (simp add: RecombinationActive_def)
  then have "slot_update d None (recombination_buffers c) = recombination_buffers c"
    by (metis slot_update_id)
  then show ?thesis by (simp add: EndRecombination_def)
qed

lemma EndRecombination_if:
  "(if RecombinationActive c d then EndRecombination d c else c) = EndRecombination d c"
  by (simp add: EndRecombination_inactive)

lemma not_active_EndRecombination [simp]:
  "\<not> RecombinationActive (EndRecombination d c) d"
  by (simp add: RecombinationActive_def EndRecombination_def)

lemma EndRecombination_twice [simp]:
  "EndRecombination d (EndRecombination d c) = EndRecombination d c"
  by (simp add: EndRecombination_def)

lemma StartRecombination_after_end:
  "StartRecombination d a n (EndRecombination d c) =
     (if a n then (OkStatus, c\<lparr>recombination_buffers :=
                      slot_update d (Some \<lparr>target_size = n, storage = []\<rparr>) (recombination_buffers c)\<rparr>)
      else (ResourceExhausted, EndRecombination d c))"
  by (simp add: StartRecombination_def MultiBufWriter_Create_def) (simp add: EndRecombination_def)

lemma first_fragment_case_eq:
  assumes h: "MakeBasicL2capHeaderView (payload acl) = Some l2cap_header"
    and ch: "find_l2cap_channel mgr direction (handle (header acl)) (channel_id l2cap_header) = Some chan"
  shows "first_fragment_case mgr direction acl c =
     (let L = IntrinsicSizeInBytes + pdu_length l2cap_header;
          c1 = EndRecombination direction c
      in if L < data_total_length (header acl) then (c1, Inl kHandled)
         else if L > data_total_length (header acl) then
           (case rx_multibuf_allocator chan of
              None \<Rightarrow> (c1, Inl kUnhandled)
            | Some a \<Rightarrow>
                if a (unat L)
                then (c\<lparr>recombination_buffers :=
                         slot_update direction (Some \<lparr>target_size = unat L, storage = []\<rparr>)
                           (recombination_buffers c)\<rparr>, Inr True)
                else (c1, Inl kUnhandled))
         else (c1, Inr False))"
  unfolding first_fragment_case_def EndRecombination_if
  by (simp add: h ch Let_def StartRecombination_after_end split: option.splits)

lemma frame_length_no_wrap:
  fixes x :: uint16_t
  assumes "unat x \<le> 65531"
  shows "unat (IntrinsicSizeInBytes + x) = 4 + unat x"
proof -
  have "unat (4 :: uint16_t) + unat x < 2 ^ LENGTH(16)"
    using assms by simp
  then have "unat (4 + x) = unat (4 :: uint16_t) + unat x"
    by (simp only: unat_add_lem [THEN iffD1])
  then show ?thesis by (simp add: IntrinsicSizeInBytes_def)
qed

lemma boundary_switch_first:
  "packet_boundary_flag (header acl) = FIRST_NON_FLUSHABLE
     \<or> packet_boundary_flag (header acl) = FIRST_FLUSHABLE \<Longrightarrow>
   boundary_switch mgr direction acl c = first_fragment_case mgr direction acl c"
  by (auto simp: boundary_switch_def)

lemma dispatch_pdu_found:
  assumes "MakeBasicL2capHeaderView pdu = Some l2cap_header"
    and "find_l2cap_channel mgr direction h (channel_id l2cap_header) = Some chan"
  shows "dispatch_pdu dbg mgr direction h is_fragment pdu =
     Inr (let result = (if direction = kFromController then HandlePduFromController chan pdu
                        else HandlePduFromHost chan pdu)
          in if is_fragment \<and> \<not> result then kHandled else result)"
  using assms by (simp add: dispatch_pdu_def Let_def)

lemma recombine_first_write:
  assumes "length data < n"
  shows "RecombineFragment d data
           (c\<lparr>recombination_buffers :=
                slot_update d (Some \<lparr>target_size = n, storage = []\<rparr>) (recombination_buffers c)\<rparr>)
         = (Inr [], c\<lparr>recombination_buffers :=
                slot_update d (Some \<lparr>target_size = n, storage = data\<rparr>) (recombination_buffers c)\<rparr>)"
  using assms
  by (simp add: RecombineFragment_def get_recombination_buffer_def MultiBufWriter_Write_def
      IsComplete_def)

lemma only_slot_changed_refl [simp]: "only_slot_changed d c c"
  by (simp add: only_slot_changed_def)


lemma only_slot_changed_put [simp]:
  "only_slot_changed d c (c\<lparr>recombination_buffers := slot_update d v (recombination_buffers c)\<rparr>)"
  by (simp add: only_slot_changed_def)








lemma continuing_fragment_outcomes:
  assumes conn: "FindAclConnection (handle (header acl)) s = Some i"
    and flag: "packet_boundary_flag (header acl) = CONTINUING_FRAGMENT"
  shows "(\<not> RecombinationActive (acl_connections s ! i) direction \<longrightarrow>
            HandleAclData debug_checks mgr direction acl s = Inr (kUnhandled, s))
       \<and> (RecombinationActive (acl_connections s ! i) direction \<longrightarrow>
            (case RecombineFragment direction (payload acl) (acl_connections s ! i) of
               (Inl st, c') \<Rightarrow>
                 HandleAclData debug_checks mgr direction acl s
                   = Inr (kHandled, store_connection i (EndRecombination direction c') s)
             | (Inr pdu, c') \<Rightarrow>
                 if pdu = [] then
                   HandleAclData debug_checks mgr direction acl s
                     = Inr (kHandled, store_connection i c' s)
                 else
                   (case MakeBasicL2capHeaderView pdu of
                      None \<Rightarrow> HandleAclData debug_checks mgr direction acl s = Inl CheckFailed
                    | Some l2cap_header \<Rightarrow>
                        (case find_l2cap_channel mgr direction (handle (header acl))
                                (channel_id l2cap_header) of
                           Some channel' \<Rightarrow>
                             HandleAclData debug_checks mgr direction acl s
                               = Inr (kHandled, store_connection i c' s)
                         | None \<Rightarrow>
                             HandleAclData debug_checks mgr direction acl s
                               = (if debug_checks then Inl CheckFailed
                                  else Inr (kUnhandled, store_connection i c' s))))))"
proof -
  have id: "store_connection i (acl_connections s ! i) s = s"
    by (simp add: store_connection_def)
  show ?thesis
    by (auto simp: HandleAclData_def conn flag boundary_switch_def recombine_stage_def
        dispatch_pdu_def id Let_def kHandled_def kUnhandled_def
        split: prod.splits sum.splits option.splits)
qed

subsection \<open>Sequences of operations\<close>




section \<open>Credit reservation\<close>

text \<open>
  C3. When the Read Buffer Size Command Complete event is processed on an
  uninitialized BR/EDR pool, the pool's \<open>proxy_max\<close> becomes
  \<open>min controller_max to_reserve\<close>, the event's \<open>total_num_acl_data_packets\<close> is
  rewritten to \<open>controller_max - proxy_max\<close>, nothing else in the event or the channel
  changes, and the channel queues are drained afterwards.
\<close>

theorem reserve_rewrites_event:
  assumes "\<not> Initialized (br_edr_credits s)"
  shows "ProcessReadBufferSizeCommandCompleteEvent ev s =
           Inr (ev\<lparr>total_num_acl_data_packets :=
                     total_num_acl_data_packets ev
                       - min (total_num_acl_data_packets ev) (to_reserve (br_edr_credits s))\<rparr>,
                s\<lparr>br_edr_credits :=
                     (br_edr_credits s)\<lparr>proxy_max :=
                        min (total_num_acl_data_packets ev) (to_reserve (br_edr_credits s))\<rparr>\<rparr>,
                [DrainChannelQueues])"
  using assms
  by (simp add: ProcessReadBufferSizeCommandCompleteEvent_def Reserve_def Let_def)

theorem reserve_rewrites_event_witness:
  "\<not> Initialized \<lparr>to_reserve = 4, proxy_max = 0, proxy_pending = 0\<rparr> \<and>
   ProcessReadBufferSizeCommandCompleteEvent
     \<lparr>total_num_acl_data_packets = 10\<rparr>
     \<lparr>le_credits = \<lparr>to_reserve = 2, proxy_max = 0, proxy_pending = 0\<rparr>,
      br_edr_credits = \<lparr>to_reserve = 4, proxy_max = 0, proxy_pending = 0\<rparr>,
      acl_connections = []\<rparr>
   = Inr (\<lparr>total_num_acl_data_packets = 6\<rparr>,
          \<lparr>le_credits = \<lparr>to_reserve = 2, proxy_max = 0, proxy_pending = 0\<rparr>,
           br_edr_credits = \<lparr>to_reserve = 4, proxy_max = 4, proxy_pending = 0\<rparr>,
           acl_connections = []\<rparr>,
          [DrainChannelQueues])"
  using reserve_rewrites_event
    [of "\<lparr>le_credits = \<lparr>to_reserve = 2, proxy_max = 0, proxy_pending = 0\<rparr>,
          br_edr_credits = \<lparr>to_reserve = 4, proxy_max = 0, proxy_pending = 0\<rparr>,
          acl_connections = []\<rparr>"
        "\<lparr>total_num_acl_data_packets = 10\<rparr>"]
  by (simp add: Initialized_def)

section \<open>Disconnection\<close>

text \<open>
  C6. When a Disconnection Complete event parses, names a tracked handle and has status
  \<open>SUCCESS\<close>, the record found for the handle is erased from the table (so the
  handle is no longer tracked when handles are distinct), the pending count of the
  record's transport drops by the record's \<open>num_pending_packets\<close>, stopping at zero,
  the other pool and \<open>proxy_max\<close> are untouched, and the L2CAP channel manager is
  told through \<open>HandleDisconnectionComplete\<close>. With any other status the channel is
  unchanged and nothing is called.
\<close>

theorem disconnection_complete:
  "(\<forall>i. FindAclConnection (dc_connection_handle ev) s = Some i \<and> status ev = SUCCESS \<longrightarrow>
      (let connection = acl_connections s ! i;
           K = num_pending_packets connection;
           r = ProcessDisconnectionCompleteEvent (Some ev) s
       in acl_connections (fst r) = erase i (acl_connections s)
          \<and> length (acl_connections (fst r)) + 1 = length (acl_connections s)
          \<and> (distinct (map connection_handle (acl_connections s)) \<longrightarrow>
                FindAclConnection (dc_connection_handle ev) (fst r) = None)
          \<and> pool_pending (transport connection) (fst r)
               = pool_pending (transport connection) s - unat K
          \<and> (\<forall>t. t \<noteq> transport connection \<longrightarrow> LookupCredits t (fst r) = LookupCredits t s)
          \<and> proxy_max (LookupCredits (transport connection) (fst r))
               = proxy_max (LookupCredits (transport connection) s)
          \<and> snd r = [HandleDisconnectionComplete (dc_connection_handle ev)]))
   \<and> (status ev \<noteq> SUCCESS \<longrightarrow> ProcessDisconnectionCompleteEvent (Some ev) s = (s, []))"
proof (intro conjI allI impI)
  fix i
  assume a: "FindAclConnection (dc_connection_handle ev) s = Some i \<and> status ev = SUCCESS"
  let ?c = "acl_connections s ! i"
  let ?K = "num_pending_packets ?c"
  let ?s1 = "LookupCredits_update (transport ?c) (MarkCompleted ?K) s"
  from a have i: "i < length (acl_connections s)" "connection_handle ?c = dc_connection_handle ev"
    using FindAclConnection_Some by blast+
  have s1: "(if ?K > 0 then ?s1 else s) = ?s1"
  proof (cases "?K = 0")
    case True
    then show ?thesis by (simp add: MarkCompleted_zero LookupCredits_update_id)
  next
    case False
    then have "?K > 0" by (simp add: word_gt_0)
    then show ?thesis by (simp only: if_True)
  qed
  have r: "ProcessDisconnectionCompleteEvent (Some ev) s
        = (?s1\<lparr>acl_connections := erase i (acl_connections s)\<rparr>,
           [HandleDisconnectionComplete (dc_connection_handle ev)])"
    using a s1 by (simp add: ProcessDisconnectionCompleteEvent_def Let_def del: word_gt_0 word_gt_0_no)
  have len: "length (erase i (acl_connections s)) + 1 = length (acl_connections s)"
    using i(1) by (simp add: erase_def)
  have none: "FindAclConnection (dc_connection_handle ev)
                (?s1\<lparr>acl_connections := erase i (acl_connections s)\<rparr>) = None"
    if "distinct (map connection_handle (acl_connections s))"
    using distinct_erase_no_handle[OF that i(1)] i(2)
    by (simp add: FindAclConnection_def FindIf_None_iff)
  have lk: "LookupCredits t (?s1\<lparr>acl_connections := erase i (acl_connections s)\<rparr>)
              = LookupCredits t ?s1" for t
    by (cases t) simp_all
  show "let connection = acl_connections s ! i;
           K = num_pending_packets connection;
           r = ProcessDisconnectionCompleteEvent (Some ev) s
       in acl_connections (fst r) = erase i (acl_connections s)
          \<and> length (acl_connections (fst r)) + 1 = length (acl_connections s)
          \<and> (distinct (map connection_handle (acl_connections s)) \<longrightarrow>
                FindAclConnection (dc_connection_handle ev) (fst r) = None)
          \<and> pool_pending (transport connection) (fst r)
               = pool_pending (transport connection) s - unat K
          \<and> (\<forall>t. t \<noteq> transport connection \<longrightarrow> LookupCredits t (fst r) = LookupCredits t s)
          \<and> proxy_max (LookupCredits (transport connection) (fst r))
               = proxy_max (LookupCredits (transport connection) s)
          \<and> snd r = [HandleDisconnectionComplete (dc_connection_handle ev)]"
    unfolding Let_def r fst_conv snd_conv
    using len none
    by (simp add: lk pool_pending_def unat_MarkCompleted)
next
  assume "status ev \<noteq> SUCCESS"
  then show "ProcessDisconnectionCompleteEvent (Some ev) s = (s, [])"
    by (simp add: ProcessDisconnectionCompleteEvent_def Let_def split: option.splits)
qed

theorem disconnection_complete_witness:
  "FindAclConnection 3 (channel_with_pending 3 2) = Some 0
   \<and> status \<lparr>status = 0, dc_connection_handle = 3, reason = 0x13\<rparr> = SUCCESS
   \<and> acl_connections (fst (ProcessDisconnectionCompleteEvent
         (Some \<lparr>status = 0, dc_connection_handle = 3, reason = 0x13\<rparr>)
         (channel_with_pending 3 2))) = []
   \<and> pool_pending kBrEdr (fst (ProcessDisconnectionCompleteEvent
         (Some \<lparr>status = 0, dc_connection_handle = 3, reason = 0x13\<rparr>)
         (channel_with_pending 3 2))) = 0
   \<and> snd (ProcessDisconnectionCompleteEvent
         (Some \<lparr>status = 0, dc_connection_handle = 3, reason = 0x13\<rparr>)
         (channel_with_pending 3 2)) = [HandleDisconnectionComplete 3]
   \<and> status \<lparr>status = 5, dc_connection_handle = 3, reason = 0x13\<rparr> \<noteq> SUCCESS
   \<and> ProcessDisconnectionCompleteEvent
         (Some \<lparr>status = 5, dc_connection_handle = 3, reason = 0x13\<rparr>)
         (channel_with_pending 3 2) = (channel_with_pending 3 2, [])"
proof -
  let ?ev = "\<lparr>status = 0, dc_connection_handle = 3, reason = 0x13\<rparr> :: DisconnectionCompleteEvent"
  let ?ev' = "\<lparr>status = 5, dc_connection_handle = 3, reason = 0x13\<rparr> :: DisconnectionCompleteEvent"
  have h: "FindAclConnection (dc_connection_handle ?ev) (channel_with_pending 3 2) = Some 0
           \<and> status ?ev = SUCCESS"
    by (simp add: FindAclConnection_def channel_with_pending_def AclConnection_ctor_def SUCCESS_def)
  have h': "status ?ev' \<noteq> SUCCESS"
    by (simp add: SUCCESS_def)
  have c: "acl_connections (channel_with_pending 3 2) ! 0 = AclConnection_ctor kBrEdr 3 2"
    "erase 0 (acl_connections (channel_with_pending 3 2)) = []"
    "pool_pending kBrEdr (channel_with_pending 3 2) = 2"
    by (simp_all add: channel_with_pending_def erase_def pool_pending_def)
  from disconnection_complete [of ?ev "channel_with_pending 3 2", THEN conjunct1, rule_format, OF h]
    disconnection_complete [of ?ev' "channel_with_pending 3 2", THEN conjunct2, rule_format, OF h']
    h h'
  show ?thesis
    by (simp add: Let_def c AclConnection_ctor_def)
qed

section \<open>Send credits\<close>

text \<open>
  C9. Destroying a credit whose release function is set runs \<open>MarkCompleted 1\<close> on
  the pool of its transport; a credit consumed by \<open>MarkUsed\<close> and a moved-from
  credit release nothing. Starting from a pool with nothing pending, \<open>n\<close> calls of
  \<open>ReserveSendCredit\<close> yield \<open>min n proxy_max\<close> live credits of that transport and
  as many pending; destroying all of them leaves \<open>proxy_pending = 0\<close>. From any
  pool within its bound, reserving and then destroying every credit obtained gives
  back the channel as it was.
\<close>

theorem credit_round_trip_on_drop:
  "(relinquish_fn credit \<longrightarrow>
      SendCredit_dtor credit s
        = LookupCredits_update (credit_transport credit) (MarkCompleted 1) s)
   \<and> (\<forall>credit'. MarkUsed credit = Inr credit' \<longrightarrow> SendCredit_dtor credit' s = s)
   \<and> SendCredit_dtor (snd (SendCredit_move credit)) s = s
   \<and> (proxy_pending (LookupCredits t s) = 0 \<longrightarrow>
        (case reserve_credits t n s of
           (credits, s') \<Rightarrow>
             length credits = min n (unat (proxy_max (LookupCredits t s)))
             \<and> (\<forall>c \<in> set credits. relinquish_fn c \<and> credit_transport c = t)
             \<and> pool_pending t s' = length credits
             \<and> pool_pending t (drop_credits credits s') = 0))
   \<and> (proxy_pending (LookupCredits t s) \<le> proxy_max (LookupCredits t s) \<longrightarrow>
        (case reserve_credits t n s of (credits, s') \<Rightarrow> drop_credits credits s' = s))"
proof (intro conjI impI allI)
  assume "relinquish_fn credit"
  then show "SendCredit_dtor credit s
        = LookupCredits_update (credit_transport credit) (MarkCompleted 1) s"
    by (simp add: SendCredit_dtor_def)
next
  fix credit' assume "MarkUsed credit = Inr credit'"
  then show "SendCredit_dtor credit' s = s"
    by (auto simp: MarkUsed_def SendCredit_dtor_def split: if_splits)
next
  show "SendCredit_dtor (snd (SendCredit_move credit)) s = s"
    by (simp add: SendCredit_move_def SendCredit_dtor_def)
next
  assume z: "proxy_pending (LookupCredits t s) = 0"
  obtain credits s' where r: "reserve_credits t n s = (credits, s')" by force
  note f = reserve_credits_from_zero[OF z r]
  have "length credits = min n (unat (proxy_max (LookupCredits t s)))"
    by (subst f(1)) simp
  moreover have "\<forall>c \<in> set credits. relinquish_fn c \<and> credit_transport c = t"
    by (subst f(1)) (simp add: fresh_credit_def)
  moreover have "pool_pending t (drop_credits credits s') = 0"
    using z by (simp add: f(3) pool_pending_def)
  ultimately show "case reserve_credits t n s of
           (credits, s') \<Rightarrow>
             length credits = min n (unat (proxy_max (LookupCredits t s)))
             \<and> (\<forall>c \<in> set credits. relinquish_fn c \<and> credit_transport c = t)
             \<and> pool_pending t s' = length credits
             \<and> pool_pending t (drop_credits credits s') = 0"
    using f(2) by (simp add: r)
next
  assume le: "proxy_pending (LookupCredits t s) \<le> proxy_max (LookupCredits t s)"
  obtain credits s' where r: "reserve_credits t n s = (credits, s')" by force
  from reserve_then_drop[OF le r]
  show "case reserve_credits t n s of (credits, s') \<Rightarrow> drop_credits credits s' = s"
    by (simp add: r)
qed

theorem credit_round_trip_on_drop_witness:
  "proxy_pending (LookupCredits kBrEdr reserved_channel) = 0
   \<and> reserve_credits kBrEdr 3 reserved_channel
       = ([fresh_credit kBrEdr, fresh_credit kBrEdr, fresh_credit kBrEdr],
          reserved_channel\<lparr>br_edr_credits :=
             \<lparr>to_reserve = 4, proxy_max = 4, proxy_pending = 3\<rparr>\<rparr>)
   \<and> pool_pending kBrEdr
        (drop_credits [fresh_credit kBrEdr, fresh_credit kBrEdr, fresh_credit kBrEdr]
          (reserved_channel\<lparr>br_edr_credits :=
             \<lparr>to_reserve = 4, proxy_max = 4, proxy_pending = 3\<rparr>\<rparr>)) = 0"
proof -
  have z: "proxy_pending (LookupCredits kBrEdr reserved_channel) = 0"
    by (simp add: reserved_channel_def)
  have r: "reserve_credits kBrEdr 3 reserved_channel
       = ([fresh_credit kBrEdr, fresh_credit kBrEdr, fresh_credit kBrEdr],
          reserved_channel\<lparr>br_edr_credits :=
             \<lparr>to_reserve = 4, proxy_max = 4, proxy_pending = 3\<rparr>\<rparr>)"
    by code_simp
  from credit_round_trip_on_drop [of "fresh_credit kBrEdr" reserved_channel kBrEdr 3] z
  show ?thesis by (simp only: r prod.case simp_thms)
qed

section \<open>The send path\<close>

text \<open>
  The claim C4 as stated promises \<open>Ok\<close> whenever the header parses, the connection
  is tracked and the transports agree. \<open>SendAcl\<close> then calls \<open>MarkUsed\<close>, which
  checks that the credit still holds its release function: with a credit already
  consumed (here by a first, successful \<open>SendAcl\<close>) the check fails and the program
  aborts instead of returning.
\<close>

theorem send_acl_consumed_credit_counterexample:
  "SendAcl [1, 0, 0, 0] (fresh_credit kBrEdr)
      ((channel_with_pending 1 1)\<lparr>acl_connections := [AclConnection_ctor kBrEdr 1 0]\<rparr>)
     = Inr (OkStatus, \<lparr>credit_transport = kBrEdr, relinquish_fn = False\<rparr>,
            channel_with_pending 1 1, [SendToController [1, 0, 0, 0]])
   \<and> MakeAclDataFrameHeaderView [1, 0, 0, 0]
     = Some \<lparr>handle = 1, packet_boundary_flag = FIRST_NON_FLUSHABLE, data_total_length = 0\<rparr>
   \<and> FindAclConnection 1 (channel_with_pending 1 1) = Some 0
   \<and> transport (acl_connections (channel_with_pending 1 1) ! 0) = kBrEdr
   \<and> SendAcl [1, 0, 0, 0] \<lparr>credit_transport = kBrEdr, relinquish_fn = False\<rparr>
        (channel_with_pending 1 1) = Inl CheckFailed"
  by code_simp

text \<open>
  C4, amended. \<open>SendAcl\<close> returns \<open>InvalidArgument\<close> when the header cannot be
  parsed, \<open>NotFound\<close> when the handle is not tracked, \<open>InvalidArgument\<close> when the
  credit's transport differs from the connection's; in these cases the credit, the
  connection table and the pools are unchanged and nothing is sent. Otherwise, with
  a credit that still holds its release function, it consumes the credit, adds one to
  the connection's \<open>num_pending_packets\<close>, sends the packet to the controller and
  returns \<open>Ok\<close>; with a consumed or moved-from credit the check in \<open>MarkUsed\<close>
  fails.
\<close>

theorem send_acl_outcomes:
  "(MakeAclDataFrameHeaderView pkt = None \<longrightarrow>
      SendAcl pkt credit s = Inr (InvalidArgument, credit, s, []))
   \<and> (\<forall>v. MakeAclDataFrameHeaderView pkt = Some v \<and> FindAclConnection (handle v) s = None \<longrightarrow>
      SendAcl pkt credit s = Inr (NotFound, credit, s, []))
   \<and> (\<forall>v i. MakeAclDataFrameHeaderView pkt = Some v \<and> FindAclConnection (handle v) s = Some i
        \<and> transport (acl_connections s ! i) \<noteq> credit_transport credit \<longrightarrow>
      SendAcl pkt credit s = Inr (InvalidArgument, credit, s, []))
   \<and> (\<forall>v i. MakeAclDataFrameHeaderView pkt = Some v \<and> FindAclConnection (handle v) s = Some i
        \<and> transport (acl_connections s ! i) = credit_transport credit \<and> relinquish_fn credit \<longrightarrow>
      SendAcl pkt credit s =
        Inr (OkStatus, credit\<lparr>relinquish_fn := False\<rparr>,
             s\<lparr>acl_connections := (acl_connections s)
                  [i := (acl_connections s ! i)\<lparr>num_pending_packets :=
                          num_pending_packets (acl_connections s ! i) + 1\<rparr>]\<rparr>,
             [SendToController pkt]))
   \<and> (\<forall>v i. MakeAclDataFrameHeaderView pkt = Some v \<and> FindAclConnection (handle v) s = Some i
        \<and> transport (acl_connections s ! i) = credit_transport credit \<and> \<not> relinquish_fn credit \<longrightarrow>
      SendAcl pkt credit s = Inl CheckFailed)
   \<and> (\<forall>st credit' s' eff. SendAcl pkt credit s = Inr (st, credit', s', eff) \<and> st \<noteq> OkStatus \<longrightarrow>
        s' = s \<and> credit' = credit \<and> eff = [])"
  by (auto simp: SendAcl_def MarkUsed_def Let_def split: option.splits sum.splits if_splits)

theorem send_acl_outcomes_witness:
  "MakeAclDataFrameHeaderView [1, 0, 0] = None
   \<and> SendAcl [1, 0, 0] (fresh_credit kBrEdr) (channel_with_pending 1 0)
       = Inr (InvalidArgument, fresh_credit kBrEdr, channel_with_pending 1 0, [])
   \<and> MakeAclDataFrameHeaderView [2, 0x20, 3, 0, 7, 7, 7]
       = Some \<lparr>handle = 2, packet_boundary_flag = FIRST_FLUSHABLE, data_total_length = 3\<rparr>
   \<and> FindAclConnection 2 (channel_with_pending 1 0) = None
   \<and> SendAcl [2, 0x20, 3, 0, 7, 7, 7] (fresh_credit kBrEdr) (channel_with_pending 1 0)
       = Inr (NotFound, fresh_credit kBrEdr, channel_with_pending 1 0, [])
   \<and> FindAclConnection 2 (channel_with_pending 2 0) = Some 0
   \<and> SendAcl [2, 0x20, 3, 0, 7, 7, 7] (fresh_credit kLe) (channel_with_pending 2 0)
       = Inr (InvalidArgument, fresh_credit kLe, channel_with_pending 2 0, [])
   \<and> SendAcl [2, 0x20, 3, 0, 7, 7, 7] (fresh_credit kBrEdr) (channel_with_pending 2 0)
       = Inr (OkStatus, \<lparr>credit_transport = kBrEdr, relinquish_fn = False\<rparr>,
              (channel_with_pending 2 0)\<lparr>acl_connections := [AclConnection_ctor kBrEdr 2 1]\<rparr>,
              [SendToController [2, 0x20, 3, 0, 7, 7, 7]])
   \<and> SendAcl [2, 0x20, 3, 0, 7, 7, 7] \<lparr>credit_transport = kBrEdr, relinquish_fn = False\<rparr>
         (channel_with_pending 2 0) = Inl CheckFailed"
proof -
  let ?p = "[2, 0x20, 3, 0, 7, 7, 7] :: uint8_t list"
  let ?v = "\<lparr>handle = 2, packet_boundary_flag = FIRST_FLUSHABLE, data_total_length = 3\<rparr>"
  have none: "MakeAclDataFrameHeaderView [1, 0, 0] = None" by code_simp
  have some: "MakeAclDataFrameHeaderView ?p = Some ?v" by code_simp
  have f1: "FindAclConnection (handle ?v) (channel_with_pending 1 0) = None" by code_simp
  have f2: "FindAclConnection (handle ?v) (channel_with_pending 2 0) = Some 0" by code_simp
  have t: "transport (acl_connections (channel_with_pending 2 0) ! 0) = kBrEdr"
    by (simp add: channel_with_pending_def AclConnection_ctor_def)
  have u: "(acl_connections (channel_with_pending 2 0))
             [0 := (acl_connections (channel_with_pending 2 0) ! 0)\<lparr>num_pending_packets :=
                     num_pending_packets (acl_connections (channel_with_pending 2 0) ! 0) + 1\<rparr>]
           = [AclConnection_ctor kBrEdr 2 1]"
    by (simp add: channel_with_pending_def AclConnection_ctor_def)
  note a = send_acl_outcomes [of "[1, 0, 0]" "fresh_credit kBrEdr" "channel_with_pending 1 0",
      THEN conjunct1, rule_format, OF none]
  note b = send_acl_outcomes [of ?p "fresh_credit kBrEdr" "channel_with_pending 1 0",
      THEN conjunct2, THEN conjunct1, rule_format, of ?v, OF conjI [OF some f1]]
  have "transport (acl_connections (channel_with_pending 2 0) ! 0) \<noteq> credit_transport (fresh_credit kLe)"
    by (simp add: t fresh_credit_def)
  note c = send_acl_outcomes [of ?p "fresh_credit kLe" "channel_with_pending 2 0",
      THEN conjunct2, THEN conjunct2, THEN conjunct1, rule_format, of ?v 0,
      OF conjI [OF some conjI [OF f2 this]]]
  have "transport (acl_connections (channel_with_pending 2 0) ! 0) = credit_transport (fresh_credit kBrEdr)
        \<and> relinquish_fn (fresh_credit kBrEdr)"
    by (simp add: t fresh_credit_def)
  note d = send_acl_outcomes [of ?p "fresh_credit kBrEdr" "channel_with_pending 2 0",
      THEN conjunct2, THEN conjunct2, THEN conjunct2, THEN conjunct1, rule_format, of ?v 0,
      OF conjI [OF some conjI [OF f2 this]]]
  have "transport (acl_connections (channel_with_pending 2 0) ! 0)
          = credit_transport \<lparr>credit_transport = kBrEdr, relinquish_fn = False\<rparr>
        \<and> \<not> relinquish_fn \<lparr>credit_transport = kBrEdr, relinquish_fn = False\<rparr>"
    by (simp add: t)
  note e = send_acl_outcomes [of ?p "\<lparr>credit_transport = kBrEdr, relinquish_fn = False\<rparr>" "channel_with_pending 2 0",
      THEN conjunct2, THEN conjunct2, THEN conjunct2, THEN conjunct2, THEN conjunct1, rule_format, of ?v 0,
      OF conjI [OF some conjI [OF f2 this]]]
  from f1 f2 have f1': "FindAclConnection 2 (channel_with_pending 1 0) = None"
    and f2': "FindAclConnection 2 (channel_with_pending 2 0) = Some 0" by simp_all
  have d': "SendAcl ?p (fresh_credit kBrEdr) (channel_with_pending 2 0)
       = Inr (OkStatus, \<lparr>credit_transport = kBrEdr, relinquish_fn = False\<rparr>,
              (channel_with_pending 2 0)\<lparr>acl_connections := [AclConnection_ctor kBrEdr 2 1]\<rparr>,
              [SendToController ?p])"
    using d by (simp add: u fresh_credit_def)
  show ?thesis
    using none a some f1' b f2' c d' e by (intro conjI)
qed

section \<open>Number Of Completed Packets\<close>

text \<open>
  The claim C2 as stated forwards the event whenever some pair names an unknown
  handle. The loop skips every pair whose count is zero before it looks the handle
  up, so an event whose only pair has an unknown handle and a zero count is
  suppressed.
\<close>

theorem nocp_unknown_handle_zero_count_counterexample:
  "FindAclConnection 9 (channel_with_pending 1 4) = None
   \<and> HandleNumberOfCompletedPacketsEvent
        \<lparr>num_handles = 1,
         nocp_data = [\<lparr>nocp_connection_handle = 9, num_completed_packets = 0\<rparr>]\<rparr>
        (channel_with_pending 1 4)
      = (channel_with_pending 1 4, [])"
  by code_simp

text \<open>
  C2, amended. Taking the pairs of the event in order, a pair whose handle is tracked
  has \<open>min count num_pending_packets\<close> credits reclaimed: the connection's
  \<open>num_pending_packets\<close> drops by that amount, the pending count of its transport
  drops by that amount, stopping at zero, the other pool is untouched, and the pair's
  count is rewritten to what is left; a pair with an unknown handle is left as it is
  and changes nothing. The loop body does this to one pair, and the handler does it to
  every pair below \<open>num_handles\<close>, each in the state left by the pairs before it: its
  final state and the event it rewrites are those of \<open>spec_reclaim_pairs\<close>, and the
  pairs from \<open>num_handles\<close> on are untouched. The queues are drained exactly when
  some pair had credits reclaimed. The event is sent to the host exactly when some
  pair with a non-zero count has an unknown handle or some pair with a tracked handle
  keeps a positive count after the rewrite; the event sent is the rewritten one, and
  nothing is sent when every pair was fully reclaimed. An event that does not parse is
  sent to the host as it is.
\<close>

theorem nocp_reclaims_and_forwards:
  "(\<forall>k. FindAclConnection (nocp_connection_handle d) s = Some k \<longrightarrow>
      (case spec_reclaim_pair d s of
         (d', s') \<Rightarrow>
           let connection = acl_connections s ! k;
               num_reclaimed = min (num_completed_packets d) (num_pending_packets connection)
           in d' = d\<lparr>num_completed_packets := num_completed_packets d - num_reclaimed\<rparr>
              \<and> acl_connections s' = (acl_connections s)
                    [k := connection\<lparr>num_pending_packets :=
                            num_pending_packets connection - num_reclaimed\<rparr>]
              \<and> pool_pending (transport connection) s'
                    = pool_pending (transport connection) s - unat num_reclaimed
              \<and> (\<forall>t. t \<noteq> transport connection \<longrightarrow> LookupCredits t s' = LookupCredits t s)
              \<and> proxy_max (LookupCredits (transport connection) s')
                    = proxy_max (LookupCredits (transport connection) s)))
   \<and> (FindAclConnection (nocp_connection_handle d) s = None \<longrightarrow>
        spec_reclaim_pair d s = (d, s))
   \<and> nocp_entry d s =
       (case spec_reclaim_pair d s of
          (d', s') \<Rightarrow>
            (d', s',
             (num_completed_packets d \<noteq> 0
                \<and> FindAclConnection (nocp_connection_handle d) s = None)
             \<or> (FindAclConnection (nocp_connection_handle d) s \<noteq> None
                \<and> num_completed_packets d' > 0),
             num_completed_packets d' \<noteq> num_completed_packets d))
   \<and> (\<forall>ev. MakeNumberOfCompletedPacketsEventWriter h4_packet = Some ev \<longrightarrow>
        (case spec_reclaim_pairs (take (unat (num_handles ev)) (nocp_data ev)) s of
           (ds', s') \<Rightarrow>
             let n = unat (num_handles ev);
                 ev' = ev\<lparr>nocp_data := ds' @ drop n (nocp_data ev)\<rparr>
             in HandleNumberOfCompletedPacketsEvent h4_packet s
                  = (s', (if \<exists>j < n. pair_reclaimed ev ev' j then [DrainChannelQueues] else [])
                         @ (if \<exists>j < n. pair_for_host ev ev' s j then [SendToHost ev'] else []))
                \<and> length ds' = n
                \<and> (\<forall>j < n.
                      (nocp_data ev' ! j,
                       snd (spec_reclaim_pairs (take (Suc j) (nocp_data ev)) s))
                        = spec_reclaim_pair (nocp_data ev ! j)
                            (snd (spec_reclaim_pairs (take j (nocp_data ev)) s)))))
   \<and> (MakeNumberOfCompletedPacketsEventWriter h4_packet = None \<longrightarrow>
        HandleNumberOfCompletedPacketsEvent h4_packet s = (s, [SendToHost h4_packet]))"
proof (intro conjI allI impI)
  fix k
  assume "FindAclConnection (nocp_connection_handle d) s = Some k"
  then show "case spec_reclaim_pair d s of
         (d', s') \<Rightarrow>
           let connection = acl_connections s ! k;
               num_reclaimed = min (num_completed_packets d) (num_pending_packets connection)
           in d' = d\<lparr>num_completed_packets := num_completed_packets d - num_reclaimed\<rparr>
              \<and> acl_connections s' = (acl_connections s)
                    [k := connection\<lparr>num_pending_packets :=
                            num_pending_packets connection - num_reclaimed\<rparr>]
              \<and> pool_pending (transport connection) s'
                    = pool_pending (transport connection) s - unat num_reclaimed
              \<and> (\<forall>t. t \<noteq> transport connection \<longrightarrow> LookupCredits t s' = LookupCredits t s)
              \<and> proxy_max (LookupCredits (transport connection) s')
                    = proxy_max (LookupCredits (transport connection) s)"
    by (rule spec_reclaim_pair_tracked)
next
  assume "FindAclConnection (nocp_connection_handle d) s = None"
  then show "spec_reclaim_pair d s = (d, s)"
    by (simp add: spec_reclaim_pair_def)
next
  show "nocp_entry d s =
       (case spec_reclaim_pair d s of
          (d', s') \<Rightarrow>
            (d', s',
             (num_completed_packets d \<noteq> 0
                \<and> FindAclConnection (nocp_connection_handle d) s = None)
             \<or> (FindAclConnection (nocp_connection_handle d) s \<noteq> None
                \<and> num_completed_packets d' > 0),
             num_completed_packets d' \<noteq> num_completed_packets d))"
    by (rule nocp_entry_as_spec)
next
  fix ev
  assume w: "MakeNumberOfCompletedPacketsEventWriter h4_packet = Some ev"
  obtain ds' s' where sp:
    "spec_reclaim_pairs (take (unat (num_handles ev)) (nocp_data ev)) s = (ds', s')"
    by (metis prod.exhaust)
  from HandleNumberOfCompletedPacketsEvent_spec[OF w sp]
  show "case spec_reclaim_pairs (take (unat (num_handles ev)) (nocp_data ev)) s of
           (ds', s') \<Rightarrow>
             let n = unat (num_handles ev);
                 ev' = ev\<lparr>nocp_data := ds' @ drop n (nocp_data ev)\<rparr>
             in HandleNumberOfCompletedPacketsEvent h4_packet s
                  = (s', (if \<exists>j < n. pair_reclaimed ev ev' j then [DrainChannelQueues] else [])
                         @ (if \<exists>j < n. pair_for_host ev ev' s j then [SendToHost ev'] else []))
                \<and> length ds' = n
                \<and> (\<forall>j < n.
                      (nocp_data ev' ! j,
                       snd (spec_reclaim_pairs (take (Suc j) (nocp_data ev)) s))
                        = spec_reclaim_pair (nocp_data ev ! j)
                            (snd (spec_reclaim_pairs (take j (nocp_data ev)) s)))"
    by (simp only: sp prod.case Let_def simp_thms)
next
  assume "MakeNumberOfCompletedPacketsEventWriter h4_packet = None"
  then show "HandleNumberOfCompletedPacketsEvent h4_packet s = (s, [SendToHost h4_packet])"
    by (simp add: HandleNumberOfCompletedPacketsEvent_def)
qed

theorem nocp_reclaims_and_forwards_witness:
  "FindAclConnection 1 (channel_with_pending 1 4) = Some 0
   \<and> FindAclConnection 9 (channel_with_pending 1 4) = None
   \<and> nocp_entry \<lparr>nocp_connection_handle = 1, num_completed_packets = 3\<rparr> (channel_with_pending 1 4)
       = (\<lparr>nocp_connection_handle = 1, num_completed_packets = 0\<rparr>, channel_with_pending 1 1,
          False, True)
   \<and> nocp_entry \<lparr>nocp_connection_handle = 9, num_completed_packets = 5\<rparr> (channel_with_pending 1 4)
       = (\<lparr>nocp_connection_handle = 9, num_completed_packets = 5\<rparr>, channel_with_pending 1 4,
          True, False)
   \<and> HandleNumberOfCompletedPacketsEvent
        \<lparr>num_handles = 2,
         nocp_data = [\<lparr>nocp_connection_handle = 9, num_completed_packets = 5\<rparr>,
                      \<lparr>nocp_connection_handle = 1, num_completed_packets = 3\<rparr>]\<rparr>
        (channel_with_pending 1 4)
      = (channel_with_pending 1 1,
         [DrainChannelQueues,
          SendToHost \<lparr>num_handles = 2,
             nocp_data = [\<lparr>nocp_connection_handle = 9, num_completed_packets = 5\<rparr>,
                          \<lparr>nocp_connection_handle = 1, num_completed_packets = 0\<rparr>]\<rparr>])
   \<and> HandleNumberOfCompletedPacketsEvent
        \<lparr>num_handles = 2,
         nocp_data = [\<lparr>nocp_connection_handle = 1, num_completed_packets = 3\<rparr>,
                      \<lparr>nocp_connection_handle = 1, num_completed_packets = 3\<rparr>]\<rparr>
        (channel_with_pending 1 4)
      = (channel_with_pending 1 0,
         [DrainChannelQueues,
          SendToHost \<lparr>num_handles = 2,
             nocp_data = [\<lparr>nocp_connection_handle = 1, num_completed_packets = 0\<rparr>,
                          \<lparr>nocp_connection_handle = 1, num_completed_packets = 2\<rparr>]\<rparr>])
   \<and> HandleNumberOfCompletedPacketsEvent
        \<lparr>num_handles = 2,
         nocp_data = [\<lparr>nocp_connection_handle = 9, num_completed_packets = 0\<rparr>,
                      \<lparr>nocp_connection_handle = 1, num_completed_packets = 3\<rparr>]\<rparr>
        (channel_with_pending 1 4)
      = (channel_with_pending 1 1, [DrainChannelQueues])
   \<and> HandleNumberOfCompletedPacketsEvent
        \<lparr>num_handles = 1,
         nocp_data = [\<lparr>nocp_connection_handle = 1, num_completed_packets = 3\<rparr>,
                      \<lparr>nocp_connection_handle = 1, num_completed_packets = 1\<rparr>]\<rparr>
        (channel_with_pending 1 4)
      = (channel_with_pending 1 1, [DrainChannelQueues])
   \<and> HandleNumberOfCompletedPacketsEvent
        \<lparr>num_handles = 2, nocp_data = [\<lparr>nocp_connection_handle = 1, num_completed_packets = 6\<rparr>]\<rparr>
        (channel_with_pending 1 4)
      = (channel_with_pending 1 4,
         [SendToHost \<lparr>num_handles = 2,
             nocp_data = [\<lparr>nocp_connection_handle = 1, num_completed_packets = 6\<rparr>]\<rparr>])"
proof -
  let ?s = "channel_with_pending 1 4"
  let ?d13 = "\<lparr>nocp_connection_handle = 1, num_completed_packets = 3\<rparr>"
  let ?d95 = "\<lparr>nocp_connection_handle = 9, num_completed_packets = 5\<rparr>"
  let ?ea = "\<lparr>num_handles = 2, nocp_data = [?d95, ?d13]\<rparr>"
  let ?eb = "\<lparr>num_handles = 2, nocp_data = [?d13, ?d13]\<rparr>"
  let ?ec = "\<lparr>num_handles = 2,
              nocp_data = [\<lparr>nocp_connection_handle = 9, num_completed_packets = 0\<rparr>, ?d13]\<rparr>"
  let ?ed = "\<lparr>num_handles = 1,
              nocp_data = [?d13, \<lparr>nocp_connection_handle = 1, num_completed_packets = 1\<rparr>]\<rparr>"
  let ?bad = "\<lparr>num_handles = 2, nocp_data = [\<lparr>nocp_connection_handle = 1, num_completed_packets = 6\<rparr>]\<rparr>"
  have f1: "FindAclConnection 1 ?s = Some 0" and f9: "FindAclConnection 9 ?s = None"
    by code_simp+
  have wa: "MakeNumberOfCompletedPacketsEventWriter ?ea = Some ?ea"
    and wb: "MakeNumberOfCompletedPacketsEventWriter ?eb = Some ?eb"
    and wc: "MakeNumberOfCompletedPacketsEventWriter ?ec = Some ?ec"
    and wd: "MakeNumberOfCompletedPacketsEventWriter ?ed = Some ?ed"
    and wbad: "MakeNumberOfCompletedPacketsEventWriter ?bad = None"
    by code_simp+
  have n: "unat (2 :: uint8_t) = 2" "unat (1 :: uint8_t) = 1" by simp_all
  have p13: "spec_reclaim_pair ?d13 ?s
               = (\<lparr>nocp_connection_handle = 1, num_completed_packets = 0\<rparr>, channel_with_pending 1 1)"
    and p95: "spec_reclaim_pair ?d95 ?s = (?d95, ?s)"
    by code_simp+
  have sa: "spec_reclaim_pairs [?d95, ?d13] ?s
              = ([?d95, \<lparr>nocp_connection_handle = 1, num_completed_packets = 0\<rparr>],
                 channel_with_pending 1 1)"
    and sb: "spec_reclaim_pairs [?d13, ?d13] ?s
              = ([\<lparr>nocp_connection_handle = 1, num_completed_packets = 0\<rparr>,
                  \<lparr>nocp_connection_handle = 1, num_completed_packets = 2\<rparr>],
                 channel_with_pending 1 0)"
    and sc: "spec_reclaim_pairs [\<lparr>nocp_connection_handle = 9, num_completed_packets = 0\<rparr>, ?d13] ?s
              = ([\<lparr>nocp_connection_handle = 9, num_completed_packets = 0\<rparr>,
                  \<lparr>nocp_connection_handle = 1, num_completed_packets = 0\<rparr>],
                 channel_with_pending 1 1)"
    and sd: "spec_reclaim_pairs [?d13] ?s
              = ([\<lparr>nocp_connection_handle = 1, num_completed_packets = 0\<rparr>],
                 channel_with_pending 1 1)"
    by code_simp+
  note e13 = nocp_reclaims_and_forwards [of ?d13 ?s, THEN conjunct2, THEN conjunct2, THEN conjunct1]
  note e95 = nocp_reclaims_and_forwards [of ?d95 ?s, THEN conjunct2, THEN conjunct2, THEN conjunct1]
  note ta = nocp_reclaims_and_forwards [of _ ?s ?ea, THEN conjunct2, THEN conjunct2, THEN conjunct2,
      THEN conjunct1, rule_format, OF wa]
  note tb = nocp_reclaims_and_forwards [of _ ?s ?eb, THEN conjunct2, THEN conjunct2, THEN conjunct2,
      THEN conjunct1, rule_format, OF wb]
  note tc = nocp_reclaims_and_forwards [of _ ?s ?ec, THEN conjunct2, THEN conjunct2, THEN conjunct2,
      THEN conjunct1, rule_format, OF wc]
  note td = nocp_reclaims_and_forwards [of _ ?s ?ed, THEN conjunct2, THEN conjunct2, THEN conjunct2,
      THEN conjunct1, rule_format, OF wd]
  note tbad = nocp_reclaims_and_forwards [of _ ?s ?bad, THEN conjunct2, THEN conjunct2,
      THEN conjunct2, THEN conjunct2, rule_format, OF wbad]
  have h13: "nocp_entry ?d13 ?s
       = (\<lparr>nocp_connection_handle = 1, num_completed_packets = 0\<rparr>, channel_with_pending 1 1,
          False, True)"
    using e13 by (simp add: p13 f1)
  have h95: "nocp_entry ?d95 ?s = (?d95, ?s, True, False)"
    using e95 by (simp add: p95 f9)
  have ha: "HandleNumberOfCompletedPacketsEvent ?ea ?s
      = (channel_with_pending 1 1,
         [DrainChannelQueues,
          SendToHost \<lparr>num_handles = 2,
             nocp_data = [?d95, \<lparr>nocp_connection_handle = 1, num_completed_packets = 0\<rparr>]\<rparr>])"
    using ta by (simp add: n sa Let_def ex_less_two pair_reclaimed_def pair_for_host_def f1 f9
        del: spec_reclaim_pairs.simps)
  have hb: "HandleNumberOfCompletedPacketsEvent ?eb ?s
      = (channel_with_pending 1 0,
         [DrainChannelQueues,
          SendToHost \<lparr>num_handles = 2,
             nocp_data = [\<lparr>nocp_connection_handle = 1, num_completed_packets = 0\<rparr>,
                          \<lparr>nocp_connection_handle = 1, num_completed_packets = 2\<rparr>]\<rparr>])"
    using tb by (simp add: n sb Let_def ex_less_two pair_reclaimed_def pair_for_host_def f1 f9
        del: spec_reclaim_pairs.simps)
  have hc: "HandleNumberOfCompletedPacketsEvent ?ec ?s = (channel_with_pending 1 1, [DrainChannelQueues])"
    using tc by (simp add: n sc Let_def ex_less_two pair_reclaimed_def pair_for_host_def f1 f9
        del: spec_reclaim_pairs.simps)
  have hd: "HandleNumberOfCompletedPacketsEvent ?ed ?s = (channel_with_pending 1 1, [DrainChannelQueues])"
    using td by (simp add: n sd Let_def ex_less_one pair_reclaimed_def pair_for_host_def f1 f9
        del: spec_reclaim_pairs.simps)
  show ?thesis
    using f1 f9 h13 h95 ha hb hc hd tbad by (intro conjI)
qed

section \<open>Credit conservation\<close>




section \<open>Classification of ACL frames\<close>

text \<open>
  The classification of a first frame (\<open>FIRST_NON_FLUSHABLE\<close> or \<open>FIRST_FLUSHABLE\<close>)
  on a tracked connection whose payload holds a basic L2CAP header for a registered
  channel, as the code computes it: \<open>l2cap_frame_length\<close> is the 16-bit sum of the
  header size 4 and \<open>pdu_length\<close>, which is the plain sum for every \<open>pdu_length\<close>
  up to 65531. When it is below \<open>data_total_length\<close> the frame is consumed. When it is
  equal the payload is handed to the channel as a complete PDU and the channel's
  answer is returned. When it is above, the frame is forwarded if the channel has no
  receive allocator or \<open>StartRecombination\<close> fails (which is never
  \<open>FailedPrecondition\<close>); otherwise recombination starts with target size
  \<open>l2cap_frame_length\<close>, and a frame whose payload has \<open>data_total_length\<close> bytes is
  then consumed as the first bytes of the buffer. In every case a recombination that
  was active in this direction is ended.
\<close>

lemma first_fragment_classification_sixteen_bit:
  assumes conn: "FindAclConnection (handle (header acl)) s = Some i"
    and flag: "packet_boundary_flag (header acl) = FIRST_NON_FLUSHABLE
               \<or> packet_boundary_flag (header acl) = FIRST_FLUSHABLE"
    and hdr: "MakeBasicL2capHeaderView (payload acl) = Some l2cap_header"
    and chan: "find_l2cap_channel mgr direction (handle (header acl)) (channel_id l2cap_header)
                 = Some channel'"
  shows
    "let acl_payload_size = data_total_length (header acl);
         l2cap_frame_length = IntrinsicSizeInBytes + pdu_length l2cap_header;
         connection = acl_connections s ! i;
         connection1 = EndRecombination direction connection
     in (unat (pdu_length l2cap_header) \<le> 65531 \<longrightarrow>
           unat l2cap_frame_length = 4 + unat (pdu_length l2cap_header))
      \<and> (l2cap_frame_length < acl_payload_size \<longrightarrow>
           HandleAclData debug_checks mgr direction acl s
             = Inr (kHandled, store_connection i connection1 s))
      \<and> (l2cap_frame_length = acl_payload_size \<longrightarrow>
           HandleAclData debug_checks mgr direction acl s
             = Inr (if direction = kFromController
                    then HandlePduFromController channel' (payload acl)
                    else HandlePduFromHost channel' (payload acl),
                    store_connection i connection1 s))
      \<and> (l2cap_frame_length > acl_payload_size \<longrightarrow>
           (case rx_multibuf_allocator channel' of
              None \<Rightarrow>
                HandleAclData debug_checks mgr direction acl s
                  = Inr (kUnhandled, store_connection i connection1 s)
            | Some multibuf_allocator \<Rightarrow>
                (case StartRecombination direction multibuf_allocator
                        (unat l2cap_frame_length) connection1 of
                   (st, connection2) \<Rightarrow>
                     st \<noteq> FailedPrecondition
                     \<and> (st \<noteq> OkStatus \<longrightarrow>
                          HandleAclData debug_checks mgr direction acl s
                            = Inr (kUnhandled, store_connection i connection1 s))
                     \<and> (st = OkStatus \<longrightarrow>
                          get_recombination_buffer connection2 direction
                            = Some \<lparr>target_size = unat l2cap_frame_length, storage = []\<rparr>
                          \<and> (length (payload acl) = unat acl_payload_size \<longrightarrow>
                               HandleAclData debug_checks mgr direction acl s
                                 = Inr (kHandled,
                                        store_connection i
                                          (connection\<lparr>recombination_buffers :=
                                             slot_update direction
                                               (Some \<lparr>target_size = unat l2cap_frame_length,
                                                      storage = payload acl\<rparr>)
                                               (recombination_buffers connection)\<rparr>) s))))))"
proof -
  let ?L = "IntrinsicSizeInBytes + pdu_length l2cap_header"
  let ?n = "data_total_length (header acl)"
  let ?c = "acl_connections s ! i"
  let ?c1 = "EndRecombination direction ?c"
  note sw = boundary_switch_first[OF flag] first_fragment_case_eq[OF hdr chan]
  have nlt: "\<not> ?L < ?n" if "?L > ?n"
    using that by (simp add: not_less less_imp_le)
  have lt: "HandleAclData debug_checks mgr direction acl s = Inr (kHandled, store_connection i ?c1 s)"
    if "?L < ?n"
    using that by (simp add: HandleAclData_def conn sw Let_def)
  have eq: "HandleAclData debug_checks mgr direction acl s
             = Inr (if direction = kFromController
                    then HandlePduFromController channel' (payload acl)
                    else HandlePduFromHost channel' (payload acl),
                    store_connection i ?c1 s)"
    if "?L = ?n"
    using that
    by (simp add: HandleAclData_def conn sw Let_def recombine_stage_def
        dispatch_pdu_found[OF hdr chan])
  have none: "HandleAclData debug_checks mgr direction acl s = Inr (kUnhandled, store_connection i ?c1 s)"
    if "?L > ?n" "rx_multibuf_allocator channel' = None"
    using that nlt[OF that(1)] by (simp add: HandleAclData_def conn sw Let_def)
  have fail: "HandleAclData debug_checks mgr direction acl s = Inr (kUnhandled, store_connection i ?c1 s)"
    if "?L > ?n" "rx_multibuf_allocator channel' = Some a" "\<not> a (unat ?L)" for a
    using that nlt[OF that(1)] by (simp add: HandleAclData_def conn sw Let_def)
  have ok: "HandleAclData debug_checks mgr direction acl s
              = Inr (kHandled,
                     store_connection i
                       (?c\<lparr>recombination_buffers :=
                             slot_update direction
                               (Some \<lparr>target_size = unat ?L, storage = payload acl\<rparr>)
                               (recombination_buffers ?c)\<rparr>) s)"
    if "?L > ?n" "rx_multibuf_allocator channel' = Some a" "a (unat ?L)"
      "length (payload acl) = unat ?n" for a
  proof -
    from that(1,4) have "length (payload acl) < unat ?L" by (simp add: word_less_nat_alt)
    from recombine_first_write[OF this] that(1,2,3) nlt[OF that(1)] show ?thesis
      by (simp add: HandleAclData_def conn sw Let_def recombine_stage_def)
  qed
  show ?thesis
    unfolding Let_def
  proof (intro conjI impI)
    assume "unat (pdu_length l2cap_header) \<le> 65531"
    then show "unat ?L = 4 + unat (pdu_length l2cap_header)"
      by (rule frame_length_no_wrap)
  next
    assume "?L < ?n"
    then show "HandleAclData debug_checks mgr direction acl s = Inr (kHandled, store_connection i ?c1 s)"
      by (rule lt)
  next
    assume "?L = ?n"
    then show "HandleAclData debug_checks mgr direction acl s
             = Inr (if direction = kFromController
                    then HandlePduFromController channel' (payload acl)
                    else HandlePduFromHost channel' (payload acl),
                    store_connection i ?c1 s)"
      by (rule eq)
  next
    assume gt: "?L > ?n"
    show "case rx_multibuf_allocator channel' of
              None \<Rightarrow>
                HandleAclData debug_checks mgr direction acl s
                  = Inr (kUnhandled, store_connection i ?c1 s)
            | Some multibuf_allocator \<Rightarrow>
                (case StartRecombination direction multibuf_allocator (unat ?L) ?c1 of
                   (st, connection2) \<Rightarrow>
                     st \<noteq> FailedPrecondition
                     \<and> (st \<noteq> OkStatus \<longrightarrow>
                          HandleAclData debug_checks mgr direction acl s
                            = Inr (kUnhandled, store_connection i ?c1 s))
                     \<and> (st = OkStatus \<longrightarrow>
                          get_recombination_buffer connection2 direction
                            = Some \<lparr>target_size = unat ?L, storage = []\<rparr>
                          \<and> (length (payload acl) = unat ?n \<longrightarrow>
                               HandleAclData debug_checks mgr direction acl s
                                 = Inr (kHandled,
                                        store_connection i
                                          (?c\<lparr>recombination_buffers :=
                                             slot_update direction
                                               (Some \<lparr>target_size = unat ?L,
                                                      storage = payload acl\<rparr>)
                                               (recombination_buffers ?c)\<rparr>) s))))"
    proof (cases "rx_multibuf_allocator channel'")
      case None
      with none[OF gt] show ?thesis by simp
    next
      case (Some a)
      show ?thesis
      proof (cases "a (unat ?L)")
        case True
        with Some ok[OF gt Some True] show ?thesis
          by (simp add: StartRecombination_after_end get_recombination_buffer_def)
      next
        case False
        with Some fail[OF gt Some False] show ?thesis
          by (simp add: StartRecombination_after_end)
      qed
    qed
  qed
qed

lemma first_fragment_classification_examples:
  "FindAclConnection 0x40 le_channel = Some 0
   \<and> MakeBasicL2capHeaderView (payload first_fragment) = Some \<lparr>pdu_length = 20, channel_id = 0x41\<rparr>
   \<and> find_l2cap_channel registered_manager kFromController 0x40 0x41 = Some accepting_channel
   \<and> HandleAclData True registered_manager kFromController first_fragment le_channel
       = Inr (kHandled, accumulating 24 (payload first_fragment))
   \<and> MakeBasicL2capHeaderView (payload complete_frame) = Some \<lparr>pdu_length = 2, channel_id = 0x41\<rparr>
   \<and> HandleAclData True registered_manager kFromController complete_frame le_channel
       = Inr (True, le_channel)
   \<and> MakeBasicL2capHeaderView (payload oversized_frame) = Some \<lparr>pdu_length = 1, channel_id = 0x41\<rparr>
   \<and> HandleAclData True registered_manager kFromController oversized_frame le_channel
       = Inr (kHandled, le_channel)"
proof -
  let ?h1 = "\<lparr>pdu_length = 20, channel_id = 0x41\<rparr> :: BasicL2capHeader"
  let ?h2 = "\<lparr>pdu_length = 2, channel_id = 0x41\<rparr> :: BasicL2capHeader"
  let ?h3 = "\<lparr>pdu_length = 1, channel_id = 0x41\<rparr> :: BasicL2capHeader"
  have conn: "FindAclConnection 0x40 le_channel = Some 0" by code_simp
  have conn1: "FindAclConnection (handle (header first_fragment)) le_channel = Some 0"
    and conn2: "FindAclConnection (handle (header complete_frame)) le_channel = Some 0"
    and conn3: "FindAclConnection (handle (header oversized_frame)) le_channel = Some 0"
    by code_simp+
  have flag1: "packet_boundary_flag (header first_fragment) = FIRST_NON_FLUSHABLE
               \<or> packet_boundary_flag (header first_fragment) = FIRST_FLUSHABLE"
    and flag2: "packet_boundary_flag (header complete_frame) = FIRST_NON_FLUSHABLE
               \<or> packet_boundary_flag (header complete_frame) = FIRST_FLUSHABLE"
    and flag3: "packet_boundary_flag (header oversized_frame) = FIRST_NON_FLUSHABLE
               \<or> packet_boundary_flag (header oversized_frame) = FIRST_FLUSHABLE"
    by (simp_all add: first_fragment_def complete_frame_def oversized_frame_def)
  have hdr1: "MakeBasicL2capHeaderView (payload first_fragment) = Some ?h1"
    and hdr2: "MakeBasicL2capHeaderView (payload complete_frame) = Some ?h2"
    and hdr3: "MakeBasicL2capHeaderView (payload oversized_frame) = Some ?h3"
    by code_simp+
  have ch: "find_l2cap_channel registered_manager kFromController 0x40 0x41 = Some accepting_channel"
    by (simp add: find_l2cap_channel_def registered_manager_def)
  have chan1: "find_l2cap_channel registered_manager kFromController
                 (handle (header first_fragment)) (channel_id ?h1) = Some accepting_channel"
    and chan2: "find_l2cap_channel registered_manager kFromController
                 (handle (header complete_frame)) (channel_id ?h2) = Some accepting_channel"
    and chan3: "find_l2cap_channel registered_manager kFromController
                 (handle (header oversized_frame)) (channel_id ?h3) = Some accepting_channel"
    by (simp_all add: ch first_fragment_def complete_frame_def oversized_frame_def)
  have c0: "acl_connections le_channel ! 0 = AclConnection_ctor kLe 0x40 0"
    "EndRecombination d (AclConnection_ctor kLe 0x40 0) = AclConnection_ctor kLe 0x40 0"
    "store_connection 0 (AclConnection_ctor kLe 0x40 0) le_channel = le_channel" for d
    by (cases d; simp add: le_channel_def EndRecombination_def AclConnection_ctor_def
        store_connection_def)+
  have st: "store_connection 0
              ((AclConnection_ctor kLe 0x40 0)\<lparr>recombination_buffers :=
                  (Some \<lparr>target_size = 24, storage = payload first_fragment\<rparr>,
                   snd (recombination_buffers (AclConnection_ctor kLe 0x40 0)))\<rparr>) le_channel
            = accumulating 24 (payload first_fragment)"
    by (simp add: store_connection_def accumulating_def le_channel_def AclConnection_ctor_def)
  have sz: "data_total_length (header first_fragment) = 14" "length (payload first_fragment) = 14"
    "data_total_length (header complete_frame) = 6" "data_total_length (header oversized_frame) = 6"
    "HandlePduFromController accepting_channel (payload complete_frame) = True"
    by (simp_all add: first_fragment_def complete_frame_def oversized_frame_def accepting_channel_def)
  have a: "HandleAclData True registered_manager kFromController first_fragment le_channel
       = Inr (kHandled, accumulating 24 (payload first_fragment))"
    using first_fragment_classification_sixteen_bit [OF conn1 flag1 hdr1 chan1, of True]
    by (simp add: Let_def c0 st IntrinsicSizeInBytes_def accepting_channel_def
        StartRecombination_after_end[of _ _ _ "AclConnection_ctor kLe 0x40 0", unfolded c0]
        get_recombination_buffer_def sz)
  have b: "HandleAclData True registered_manager kFromController complete_frame le_channel
       = Inr (True, le_channel)"
    using first_fragment_classification_sixteen_bit [OF conn2 flag2 hdr2 chan2, of True]
    by (simp add: Let_def c0 IntrinsicSizeInBytes_def sz)
  have c: "HandleAclData True registered_manager kFromController oversized_frame le_channel
       = Inr (kHandled, le_channel)"
    using first_fragment_classification_sixteen_bit [OF conn3 flag3 hdr3 chan3, of True]
    by (simp add: Let_def c0 IntrinsicSizeInBytes_def sz)
  from conn hdr1 ch a hdr2 b hdr3 c show ?thesis by (intro conjI)
qed

text \<open>
  C7 takes \<open>l2cap_frame_length\<close> to be the header size plus \<open>pdu_length\<close>. The code
  keeps the sum in a \<^verbatim>\<open>uint16_t\<close>, so for a \<open>pdu_length\<close> above 65531 it wraps. The
  first fragment of a PDU of 65535 bytes, carrying 10 bytes, belongs to an L2CAP frame
  of 65539 bytes, more than the 10 it carries: the claim has it start recombination,
  or be forwarded when recombination cannot start. \<open>HandleAclData\<close> computes the
  length 3, takes the frame for one longer than its PDU, and consumes it without
  starting recombination; the continuing fragment that follows is then forwarded.
\<close>

theorem first_fragment_length_wraps:
  "find_l2cap_channel registered_manager kFromController 0x40 0x41 = Some accepting_channel
   \<and> FindAclConnection (handle (header longest_pdu_fragment)) le_channel = Some 0
   \<and> packet_boundary_flag (header longest_pdu_fragment) = FIRST_FLUSHABLE
   \<and> MakeBasicL2capHeaderView (payload longest_pdu_fragment)
       = Some \<lparr>pdu_length = 0xFFFF, channel_id = 0x41\<rparr>
   \<and> unat IntrinsicSizeInBytes + unat (0xFFFF :: uint16_t) = 65539
   \<and> unat (data_total_length (header longest_pdu_fragment)) = 10
   \<and> unat (IntrinsicSizeInBytes + (0xFFFF :: uint16_t)) = 3
   \<and> HandleAclData True registered_manager kFromController longest_pdu_fragment le_channel
       = Inr (kHandled, le_channel)
   \<and> HandleAclData False registered_manager kFromController longest_pdu_fragment le_channel
       = Inr (kHandled, le_channel)
   \<and> \<not> RecombinationActive (acl_connections le_channel ! 0) kFromController
   \<and> packet_boundary_flag (header continuing_fragment) = CONTINUING_FRAGMENT
   \<and> HandleAclData True registered_manager kFromController continuing_fragment le_channel
       = Inr (kUnhandled, le_channel)"
proof -
  have channel:
    "find_l2cap_channel registered_manager kFromController 0x40 0x41 = Some accepting_channel"
    by (simp add: find_l2cap_channel_def registered_manager_def)
  have frame:
    "FindAclConnection (handle (header longest_pdu_fragment)) le_channel = Some 0"
    "packet_boundary_flag (header longest_pdu_fragment) = FIRST_FLUSHABLE"
    "MakeBasicL2capHeaderView (payload longest_pdu_fragment)
       = Some \<lparr>pdu_length = 0xFFFF, channel_id = 0x41\<rparr>"
    by code_simp+
  have lengths:
    "unat IntrinsicSizeInBytes + unat (0xFFFF :: uint16_t) = 65539"
    "unat (data_total_length (header longest_pdu_fragment)) = 10"
    "unat (IntrinsicSizeInBytes + (0xFFFF :: uint16_t)) = 3"
    by (simp_all add: IntrinsicSizeInBytes_def longest_pdu_fragment_def)
  have first:
    "HandleAclData True registered_manager kFromController longest_pdu_fragment le_channel
       = Inr (kHandled, le_channel)"
    "HandleAclData False registered_manager kFromController longest_pdu_fragment le_channel
       = Inr (kHandled, le_channel)"
    "\<not> RecombinationActive (acl_connections le_channel ! 0) kFromController"
    by code_simp+
  have continuing:
    "packet_boundary_flag (header continuing_fragment) = CONTINUING_FRAGMENT"
    "HandleAclData True registered_manager kFromController continuing_fragment le_channel
       = Inr (kUnhandled, le_channel)"
    by code_simp+
  from channel frame lengths first continuing show ?thesis
    by (intro conjI)
qed

text \<open>
  C8. A first frame on a tracked connection is processed exactly as if the
  recombination slot of its direction had been cleared beforehand: the active
  recombination is ended and the partial PDU dropped, the slot is then inactive, and
  \<open>StartRecombination\<close> on it does not fail with \<open>FailedPrecondition\<close>.
\<close>

theorem restart_on_repeated_first_fragment:
  assumes conn: "FindAclConnection (handle (header acl)) s = Some i"
    and flag: "packet_boundary_flag (header acl) = FIRST_NON_FLUSHABLE
               \<or> packet_boundary_flag (header acl) = FIRST_FLUSHABLE"
  shows "HandleAclData debug_checks mgr direction acl s
           = HandleAclData debug_checks mgr direction acl
               (store_connection i (EndRecombination direction (acl_connections s ! i)) s)
       \<and> \<not> RecombinationActive (EndRecombination direction (acl_connections s ! i)) direction
       \<and> fst (StartRecombination direction multibuf_allocator size'
                 (EndRecombination direction (acl_connections s ! i))) \<noteq> FailedPrecondition"
proof -
  let ?c = "acl_connections s ! i"
  let ?s1 = "store_connection i (EndRecombination direction ?c) s"
  from FindAclConnection_Some[OF conn] have i: "i < length (acl_connections s)" by simp
  have "map connection_handle (acl_connections ?s1) = map connection_handle (acl_connections s)"
    by (simp add: store_connection_def map_update list_update_same_conv i EndRecombination_def)
  then have "FindAclConnection (handle (header acl)) ?s1 = FindAclConnection (handle (header acl)) s"
    by (rule FindAclConnection_handles)
  with conn have conn1: "FindAclConnection (handle (header acl)) ?s1 = Some i"
    by simp
  have at: "acl_connections ?s1 ! i = EndRecombination direction ?c"
    using i by (simp add: store_connection_def)
  have st: "store_connection i c' ?s1 = store_connection i c' s" for c'
    by (simp add: store_connection_def)
  have ff: "first_fragment_case mgr direction acl (EndRecombination direction ?c)
              = first_fragment_case mgr direction acl ?c"
    by (simp only: first_fragment_case_def EndRecombination_if EndRecombination_twice if_cancel)
  have "HandleAclData debug_checks mgr direction acl s
           = HandleAclData debug_checks mgr direction acl ?s1"
    by (simp only: HandleAclData_def Let_def conn conn1 option.case at
        boundary_switch_first[OF flag] ff st)
  then show ?thesis
    by (simp add: StartRecombination_after_end)
qed

theorem restart_on_repeated_first_fragment_witness:
  "FindAclConnection 0x40 (accumulating 30 [1, 2, 3]) = Some 0
   \<and> RecombinationActive (acl_connections (accumulating 30 [1, 2, 3]) ! 0) kFromController
   \<and> HandleAclData True registered_manager kFromController first_fragment (accumulating 30 [1, 2, 3])
       = Inr (kHandled, accumulating 24 (payload first_fragment))
   \<and> fst (StartRecombination kFromController (\<lambda>n. n \<le> 1024) 24
            (EndRecombination kFromController (acl_connections (accumulating 30 [1, 2, 3]) ! 0)))
       = OkStatus"
proof -
  let ?s = "accumulating 30 [1, 2, 3]"
  have conn: "FindAclConnection (handle (header first_fragment)) ?s = Some 0" by code_simp
  have flag: "packet_boundary_flag (header first_fragment) = FIRST_NON_FLUSHABLE
               \<or> packet_boundary_flag (header first_fragment) = FIRST_FLUSHABLE"
    by (simp add: first_fragment_def)
  have ended: "store_connection 0 (EndRecombination kFromController (acl_connections ?s ! 0)) ?s
                 = le_channel"
    by code_simp
  have fresh: "HandleAclData True registered_manager kFromController first_fragment le_channel
       = Inr (kHandled, accumulating 24 (payload first_fragment))"
    by code_simp
  have act: "RecombinationActive (acl_connections ?s ! 0) kFromController" by code_simp
  have ok: "fst (StartRecombination kFromController (\<lambda>n. n \<le> 1024) 24
            (EndRecombination kFromController (acl_connections ?s ! 0))) = OkStatus"
    by (simp add: StartRecombination_after_end)
  from restart_on_repeated_first_fragment
         [OF conn flag, of True registered_manager kFromController "\<lambda>n. n \<le> 1024" 24]
  have "HandleAclData True registered_manager kFromController first_fragment ?s
          = Inr (kHandled, accumulating 24 (payload first_fragment))"
    by (simp only: ended fresh)
  with conn act ok show ?thesis by (simp add: first_fragment_def)
qed



text \<open>
  C5 promises that a continuing fragment arriving while recombination is active is
  always consumed. After the lock is released the channel is looked up again from the
  header of the recombined PDU; when the channel has been closed since the first
  fragment was consumed, \<open>HandleAclData\<close> returns \<open>kUnhandled\<close> for the last fragment
  (or aborts on the \<open>PW_DCHECK\<close> when debug checks are compiled in), although the
  earlier fragments were consumed. The lemma \<open>continuing_fragment_outcomes\<close> above
  gives every outcome for a continuing fragment.
\<close>

theorem continuation_after_channel_closed:
  "HandleAclData False registered_manager kFromController first_fragment le_channel
     = Inr (kHandled, accumulating 24 (payload first_fragment))
   \<and> RecombinationActive (acl_connections (accumulating 24 (payload first_fragment)) ! 0)
        kFromController
   \<and> packet_boundary_flag (header continuing_fragment) = CONTINUING_FRAGMENT
   \<and> HandleAclData False empty_manager kFromController continuing_fragment
        (accumulating 24 (payload first_fragment))
     = Inr (kUnhandled, le_channel)
   \<and> HandleAclData True empty_manager kFromController continuing_fragment
        (accumulating 24 (payload first_fragment))
     = Inl CheckFailed"
  by code_simp

end
